theory Spec2Isabelle
  imports Complex_Main
begin

section \<open>Values of the JavaScript runtime\<close>

text \<open>
  The server (\<^verbatim>\<open>src/server.js\<close>) is a Node.js program. Its functions are embedded
  as HOL functions over an explicit state; what the runtime contributes (decoded JSON
  values, truthiness, string conversion, property lookup on plain objects) is modelled
  here, next to the code that relies on it.

  A JavaScript string is a \<^typ>\<open>string\<close>: one \<^typ>\<open>char\<close> stands for one code unit in
  the range U+0000 .. U+00FF.
\<close>

text \<open>
  A number as \<^verbatim>\<open>JSON.parse\<close> returns it: a finite value, or an infinity when the
  literal overflows. Negative zero is identified with zero (both are falsy).
\<close>

datatype jsnum = Finite rat | PosInfinity | NegInfinity

datatype json =
    JNull
  | JBool bool
  | JNum jsnum
  | JStr string
  | JArr "json list"
  | JObj "(string \<times> json) list"

text \<open>
  A property read \<^verbatim>\<open>data[f]\<close> yields \<open>None\<close> for \<^verbatim>\<open>undefined\<close>. The field names the
  server reads (\<^verbatim>\<open>type\<close>, \<^verbatim>\<open>room\<close>, \<^verbatim>\<open>sender\<close>, \<^verbatim>\<open>content\<close>, \<^verbatim>\<open>target\<close>, \<^verbatim>\<open>emoji\<close>,
  \<^verbatim>\<open>timestamp\<close>, \<^verbatim>\<open>reply\<close>, \<^verbatim>\<open>typing\<close>) are own properties of a decoded object or absent;
  numbers, strings, booleans and arrays have none of them. A decoded object holds each
  key once, in the order in which the object enumerates its own properties.
\<close>

fun get :: "json \<Rightarrow> string \<Rightarrow> json option" where
  "get (JObj kvs) f = map_of kvs f"
| "get _ f = None"

text \<open>ToBoolean, on a value and on a possibly undefined value.\<close>

fun truthy :: "json \<Rightarrow> bool" where
  "truthy JNull = False"
| "truthy (JBool b) = b"
| "truthy (JNum n) = (n \<noteq> Finite 0)"
| "truthy (JStr s) = (s \<noteq> [])"
| "truthy (JArr xs) = True"
| "truthy (JObj kvs) = True"

fun truthy_opt :: "json option \<Rightarrow> bool" where
  "truthy_opt None = False"
| "truthy_opt (Some v) = truthy v"

text \<open>\<^verbatim>\<open>Array.prototype.join\<close> on strings.\<close>

fun join :: "string \<Rightarrow> string list \<Rightarrow> string" where
  "join sep [] = []"
| "join sep [x] = x"
| "join sep (x # y # ys) = x @ sep @ join sep (y # ys)"

text \<open>
  ToString, \<open>None\<close> when the conversion throws a TypeError. The text of a number is the
  runtime's \<^verbatim>\<open>Number::toString\<close>, taken as the parameter \<open>nts\<close>. An array is the join
  of its elements with a comma, a \<^verbatim>\<open>null\<close> element giving the empty string. An object is
  converted by its \<^verbatim>\<open>toString\<close> method: the inherited one returns
  \<^verbatim>\<open>[object Object]\<close>; an own property of that name holds a decoded value, which is no
  function, and \<^verbatim>\<open>valueOf\<close> then yields no primitive either, so the conversion throws.
\<close>

fun to_string :: "(jsnum \<Rightarrow> string) \<Rightarrow> json \<Rightarrow> string option" where
  "to_string nts JNull = Some ''null''"
| "to_string nts (JBool b) = Some (if b then ''true'' else ''false'')"
| "to_string nts (JNum n) = Some (nts n)"
| "to_string nts (JStr s) = Some s"
| "to_string nts (JArr xs) =
     map_option (join '','')
       (those (map (\<lambda>x. if x = JNull then Some [] else to_string nts x) xs))"
| "to_string nts (JObj kvs) =
     (if map_of kvs ''toString'' = None then Some ''[object Object]'' else None)"

fun to_string_opt :: "(jsnum \<Rightarrow> string) \<Rightarrow> json option \<Rightarrow> string option" where
  "to_string_opt nts None = Some ''undefined''"
| "to_string_opt nts (Some v) = to_string nts v"

text \<open>
  \<^verbatim>\<open>String.prototype.trim\<close>: the white space and line terminators of the language
  that lie in the modelled range of code units.
\<close>

definition is_white_space :: "char \<Rightarrow> bool" where
  "is_white_space c =
     (c = CHR 0x09 \<or> c = CHR 0x0A \<or> c = CHR 0x0B \<or> c = CHR 0x0C \<or> c = CHR 0x0D \<or>
      c = CHR 0x20 \<or> c = CHR 0xA0)"

definition trim :: "string \<Rightarrow> string" where
  "trim s = rev (dropWhile is_white_space (rev (dropWhile is_white_space s)))"

text \<open>
  A \<^verbatim>\<open>Set\<close> iterates in insertion order and holds no element twice: a list, with
  \<^verbatim>\<open>add\<close> appending an absent element and \<^verbatim>\<open>delete\<close> removing it.
\<close>

definition set_add :: "'a \<Rightarrow> 'a list \<Rightarrow> 'a list" where
  "set_add x xs = (if x \<in> set xs then xs else xs @ [x])"

definition set_delete :: "'a \<Rightarrow> 'a list \<Rightarrow> 'a list" where
  "set_delete x xs = removeAll x xs"

text \<open>
  Both \<^verbatim>\<open>typingUsers\<close> and \<^verbatim>\<open>messageHandlers\<close> are plain objects (\<^verbatim>\<open>{}\<close> literals), so
  a read \<^verbatim>\<open>obj[key]\<close> that finds no own property continues in \<^verbatim>\<open>Object.prototype\<close>.
  These are its property names; every one of them holds a function, except
  \<^verbatim>\<open>__proto__\<close>, which reads as \<^verbatim>\<open>Object.prototype\<close> itself. All are truthy.
\<close>

definition object_prototype_keys :: "string list" where
  "object_prototype_keys =
     [''constructor'', ''__defineGetter__'', ''__defineSetter__'', ''hasOwnProperty'',
      ''__lookupGetter__'', ''__lookupSetter__'', ''isPrototypeOf'',
      ''propertyIsEnumerable'', ''toString'', ''valueOf'', ''__proto__'',
      ''toLocaleString'']"

datatype 'a property = Own 'a | Inherited string | Undefined

definition lookup :: "(string \<rightharpoonup> 'a) \<Rightarrow> string \<Rightarrow> 'a property" where
  "lookup obj key =
     (case obj key of
        Some v \<Rightarrow> Own v
      | None \<Rightarrow> if key \<in> set object_prototype_keys then Inherited key else Undefined)"

section \<open>State\<close>

type_synonym conn = nat

datatype ready_state = CONNECTING | OPEN | CLOSING | CLOSED

text \<open>
  The fields the server keeps on a connection object: \<^verbatim>\<open>ws.username\<close> (\<open>None\<close> is
  \<^verbatim>\<open>null\<close>) and \<^verbatim>\<open>ws.rooms\<close>; \<^verbatim>\<open>ws.readyState\<close> belongs to the transport.
\<close>

record conn_state =
  username :: "string option"
  ws_rooms :: "string list"
  readyState :: ready_state

text \<open>The events the server builds.\<close>

datatype payload =
    ErrorEv string
  | SystemEv string
  | UserJoined string "string option"
  | UserLeft string "string option"
  | PresenceEv string "string list"
  | TypingEv string "string list"
  | MessageEv string "string option" string json json
  | ReactionEv string "string option" string string json

text \<open>
  \<^verbatim>\<open>JSON.stringify\<close>. A frame is represented by the event that its text decodes to.
  Strings, booleans, \<^verbatim>\<open>null\<close> and finite numbers are encoded as they are; a number that
  is not finite is encoded as \<^verbatim>\<open>null\<close>, also inside an array or an object. Of the events
  the server builds, only the timestamp and the reply reference hold values taken from
  the inbound message.
\<close>

fun encoded :: "json \<Rightarrow> json" where
  "encoded JNull = JNull"
| "encoded (JBool b) = JBool b"
| "encoded (JNum n) =
     (case n of Finite q \<Rightarrow> JNum (Finite q) | PosInfinity \<Rightarrow> JNull | NegInfinity \<Rightarrow> JNull)"
| "encoded (JStr s) = JStr s"
| "encoded (JArr xs) = JArr (map encoded xs)"
| "encoded (JObj kvs) = JObj (map (\<lambda>(k, v). (k, encoded v)) kvs)"

fun JSON_stringify :: "payload \<Rightarrow> payload" where
  "JSON_stringify (ErrorEv m) = ErrorEv m"
| "JSON_stringify (SystemEv c) = SystemEv c"
| "JSON_stringify (UserJoined r u) = UserJoined r u"
| "JSON_stringify (UserLeft r u) = UserLeft r u"
| "JSON_stringify (PresenceEv r us) = PresenceEv r us"
| "JSON_stringify (TypingEv r us) = TypingEv r us"
| "JSON_stringify (MessageEv r u c ts reply) = MessageEv r u c (encoded ts) (encoded reply)"
| "JSON_stringify (ReactionEv r u g e ts) = ReactionEv r u g e (encoded ts)"

text \<open>
  \<open>rooms\<close> is the \<^verbatim>\<open>Map\<close> of member sets, \<open>typingUsers\<close> the own properties of the
  object of that name, \<open>conns\<close> the connection objects, and \<open>outbox\<close> every frame
  handed to \<^verbatim>\<open>ws.send\<close> so far, oldest first.
\<close>

record state =
  rooms :: "string \<rightharpoonup> conn list"
  typingUsers :: "string \<rightharpoonup> string list"
  conns :: "conn \<Rightarrow> conn_state"
  outbox :: "(conn \<times> payload) list"

text \<open>
  The \<^verbatim>\<open>connection\<close> listener gives a new connection object an empty \<^verbatim>\<open>rooms\<close> set
  and the username \<^verbatim>\<open>null\<close>; every connection identity starts so.
\<close>

definition init_conn :: conn_state where
  "init_conn = \<lparr>username = None, ws_rooms = [], readyState = OPEN\<rparr>"

definition init_state :: state where
  "init_state = \<lparr>rooms = Map.empty, typingUsers = Map.empty, conns = (\<lambda>_. init_conn), outbox = []\<rparr>"

text \<open>A call either returns or throws; both leave a state behind.\<close>

datatype error = TypeError

datatype 'a completion = Returns 'a | Throws error 'a

fun final :: "'a completion \<Rightarrow> 'a" where
  "final (Returns s) = s"
| "final (Throws e s) = s"

section \<open>Helper functions\<close>

text \<open>\<^verbatim>\<open>parseJSON\<close>: the argument is the outcome of \<^verbatim>\<open>JSON.parse\<close>, \<open>None\<close> when it throws.\<close>

definition parseJSON :: "json option \<Rightarrow> json" where
  "parseJSON msg = (case msg of Some v \<Rightarrow> v | None \<Rightarrow> JNull)"

definition send :: "conn \<Rightarrow> payload \<Rightarrow> state \<Rightarrow> state" where
  "send ws data s =
     (if readyState (conns s ws) = OPEN
      then s\<lparr>outbox := outbox s @ [(ws, JSON_stringify data)]\<rparr> else s)"

definition invalid_field :: "json \<Rightarrow> string \<Rightarrow> bool" where
  "invalid_field data f =
     (case get data f of Some (JStr v) \<Rightarrow> trim v = [] | _ \<Rightarrow> True)"

definition requireFields :: "conn \<Rightarrow> json \<Rightarrow> string list \<Rightarrow> state \<Rightarrow> bool \<times> state" where
  "requireFields ws data fs s =
     (let missing = filter (invalid_field data) fs in
      if missing \<noteq> []
      then (False, send ws (ErrorEv (''Missing or invalid fields: '' @ join '', '' missing)) s)
      else (True, s))"

definition broadcastToRoom :: "string \<Rightarrow> payload \<Rightarrow> conn option \<Rightarrow> state \<Rightarrow> state" where
  "broadcastToRoom room pl excludeWs s =
     (case rooms s room of
        None \<Rightarrow> s
      | Some clients \<Rightarrow>
          (let msg = JSON_stringify pl in
           s\<lparr>outbox := outbox s @
                map (\<lambda>client. (client, msg))
                  (filter (\<lambda>client. readyState (conns s client) = OPEN \<and> Some client \<noteq> excludeWs)
                     clients)\<rparr>))"

text \<open>\<^verbatim>\<open>.filter(Boolean)\<close> drops \<^verbatim>\<open>null\<close> and the empty string.\<close>

definition presence_users :: "state \<Rightarrow> conn list \<Rightarrow> string list" where
  "presence_users s clients =
     concat (map (\<lambda>c. case username (conns s c) of
                          None \<Rightarrow> []
                        | Some u \<Rightarrow> if u = [] then [] else [u]) clients)"

definition broadcastPresence :: "string \<Rightarrow> state \<Rightarrow> state" where
  "broadcastPresence room s =
     (case rooms s room of
        None \<Rightarrow> s
      | Some clients \<Rightarrow> broadcastToRoom room (PresenceEv room (presence_users s clients)) None s)"

section \<open>Room logic\<close>

text \<open>The member set of a room, empty when the directory has no entry for it.\<close>

definition members :: "state \<Rightarrow> string \<Rightarrow> conn list" where
  "members s room = (case rooms s room of None \<Rightarrow> [] | Some m \<Rightarrow> m)"

definition joinRoom :: "conn \<Rightarrow> string \<Rightarrow> state \<Rightarrow> state" where
  "joinRoom ws room s =
     (let s1 = s\<lparr>rooms := (rooms s)(room \<mapsto> set_add ws (members s room))\<rparr>;
          s2 = s1\<lparr>conns := (conns s1)(ws := (conns s1 ws)\<lparr>ws_rooms := set_add room (ws_rooms (conns s1 ws))\<rparr>)\<rparr>;
          s3 = broadcastToRoom room (UserJoined room (username (conns s2 ws))) (Some ws) s2;
          s4 = send ws (SystemEv (''Joined room: '' @ room)) s3
      in broadcastPresence room s4)"

text \<open>The first five lines of \<^verbatim>\<open>leaveRoom\<close>: the member set and the connection's record.\<close>

definition remove_member :: "conn \<Rightarrow> string \<Rightarrow> state \<Rightarrow> state" where
  "remove_member ws room s =
     (let s1 = (case rooms s room of
                  None \<Rightarrow> s
                | Some m \<Rightarrow>
                    if set_delete ws m = []
                    then s\<lparr>rooms := (rooms s)(room := None)\<rparr>
                    else s\<lparr>rooms := (rooms s)(room \<mapsto> set_delete ws m)\<rparr>)
      in s1\<lparr>conns := (conns s1)(ws := (conns s1 ws)\<lparr>ws_rooms := set_delete room (ws_rooms (conns s1 ws))\<rparr>)\<rparr>)"

text \<open>Its last three lines: the notification, the confirmation and the presence list.\<close>

definition announce_left :: "conn \<Rightarrow> string \<Rightarrow> state \<Rightarrow> state" where
  "announce_left ws room s =
     (let s1 = broadcastToRoom room (UserLeft room (username (conns s ws))) (Some ws) s;
          s2 = send ws (SystemEv (''Left room: '' @ room)) s1
      in broadcastPresence room s2)"

text \<open>
  \<^verbatim>\<open>typingUsers[room].delete(ws.username)\<close>: the set holds strings only, so deleting
  \<^verbatim>\<open>null\<close> removes nothing. When \<^verbatim>\<open>typingUsers[room]\<close> is an inherited property, it has
  no \<^verbatim>\<open>delete\<close> method and the call throws.
\<close>

definition delete_user :: "string option \<Rightarrow> string list \<Rightarrow> string list" where
  "delete_user u t = (case u of None \<Rightarrow> t | Some name \<Rightarrow> set_delete name t)"

definition leaveRoom :: "conn \<Rightarrow> string \<Rightarrow> state \<Rightarrow> state completion" where
  "leaveRoom ws room s =
     (let s1 = remove_member ws room s in
      case lookup (typingUsers s1) room of
        Undefined \<Rightarrow> Returns (announce_left ws room s1)
      | Inherited k \<Rightarrow> Throws TypeError s1
      | Own t \<Rightarrow>
          (let t' = delete_user (username (conns s1 ws)) t in
           if t' = []
           then Returns (announce_left ws room (s1\<lparr>typingUsers := (typingUsers s1)(room := None)\<rparr>))
           else Returns (announce_left ws room
                  (broadcastToRoom room (TypingEv room t') None
                     (s1\<lparr>typingUsers := (typingUsers s1)(room \<mapsto> t')\<rparr>)))))"

section \<open>Message handlers\<close>

text \<open>A field that passed \<^verbatim>\<open>requireFields\<close> is a string.\<close>

fun str :: "json option \<Rightarrow> string" where
  "str (Some (JStr v)) = v"
| "str _ = []"

text \<open>\<^verbatim>\<open>data.timestamp || Date.now()\<close> and \<^verbatim>\<open>data.reply || null\<close>.\<close>

definition or_else :: "json option \<Rightarrow> json \<Rightarrow> json" where
  "or_else v d = (case v of Some x \<Rightarrow> if truthy x then x else d | None \<Rightarrow> d)"

definition date_now :: "int \<Rightarrow> json" where
  "date_now now = JNum (Finite (of_int now))"

definition handle_join :: "conn \<Rightarrow> json \<Rightarrow> state \<Rightarrow> state" where
  "handle_join ws data s =
     (case requireFields ws data [''room'', ''sender''] s of
        (True, s1) \<Rightarrow>
          joinRoom ws (str (get data ''room''))
            (s1\<lparr>conns := (conns s1)(ws := (conns s1 ws)\<lparr>username := Some (str (get data ''sender''))\<rparr>)\<rparr>)
      | (False, s1) \<Rightarrow> s1)"

definition handle_leave :: "conn \<Rightarrow> json \<Rightarrow> state \<Rightarrow> state completion" where
  "handle_leave ws data s =
     (case requireFields ws data [''room''] s of
        (True, s1) \<Rightarrow> leaveRoom ws (str (get data ''room'')) s1
      | (False, s1) \<Rightarrow> Returns s1)"

definition handle_message :: "int \<Rightarrow> conn \<Rightarrow> json \<Rightarrow> state \<Rightarrow> state" where
  "handle_message now ws data s =
     (case requireFields ws data [''room'', ''content''] s of
        (True, s1) \<Rightarrow>
          if str (get data ''room'') \<in> set (ws_rooms (conns s1 ws))
          then broadcastToRoom (str (get data ''room''))
                 (MessageEv (str (get data ''room'')) (username (conns s1 ws))
                    (str (get data ''content''))
                    (or_else (get data ''timestamp'') (date_now now))
                    (or_else (get data ''reply'') JNull))
                 None s1
          else s1
      | (False, s1) \<Rightarrow> s1)"

definition handle_reaction :: "int \<Rightarrow> conn \<Rightarrow> json \<Rightarrow> state \<Rightarrow> state" where
  "handle_reaction now ws data s =
     (case requireFields ws data [''room'', ''target'', ''emoji''] s of
        (True, s1) \<Rightarrow>
          if str (get data ''room'') \<in> set (ws_rooms (conns s1 ws))
          then broadcastToRoom (str (get data ''room''))
                 (ReactionEv (str (get data ''room'')) (username (conns s1 ws))
                    (str (get data ''target'')) (str (get data ''emoji''))
                    (or_else (get data ''timestamp'') (date_now now)))
                 None s1
          else s1
      | (False, s1) \<Rightarrow> s1)"

definition handle_presence_request :: "conn \<Rightarrow> json \<Rightarrow> state \<Rightarrow> state" where
  "handle_presence_request ws data s =
     (case requireFields ws data [''room''] s of
        (True, s1) \<Rightarrow>
          if str (get data ''room'') \<in> set (ws_rooms (conns s1 ws))
          then broadcastPresence (str (get data ''room'')) s1
          else s1
      | (False, s1) \<Rightarrow> s1)"

text \<open>
  In \<^verbatim>\<open>typing\<close>, \<^verbatim>\<open>!user\<close> holds for \<^verbatim>\<open>null\<close> and for the empty string. An absent
  \<^verbatim>\<open>typingUsers[room]\<close> is first set to an empty set; an inherited one is truthy, is
  left in place, and has neither \<^verbatim>\<open>add\<close> nor \<^verbatim>\<open>delete\<close>, so the call throws.
\<close>

definition handle_typing :: "conn \<Rightarrow> json \<Rightarrow> state \<Rightarrow> state completion" where
  "handle_typing ws data s =
     (case requireFields ws data [''room''] s of
        (False, s1) \<Rightarrow> Returns s1
      | (True, s1) \<Rightarrow>
          (let room = str (get data ''room'') in
           case username (conns s1 ws) of
             None \<Rightarrow> Returns s1
           | Some user \<Rightarrow>
               if user = [] \<or> room \<notin> set (ws_rooms (conns s1 ws)) then Returns s1
               else
                 (case lookup (typingUsers s1) room of
                    Inherited k \<Rightarrow> Throws TypeError s1
                  | p \<Rightarrow>
                      (let t = (case p of Own t0 \<Rightarrow> t0 | _ \<Rightarrow> []);
                           t' = (if truthy_opt (get data ''typing'')
                                 then set_add user t else set_delete user t);
                           s2 = s1\<lparr>typingUsers := (typingUsers s1)(room \<mapsto> t')\<rparr>
                       in Returns (broadcastToRoom room (TypingEv room t') None s2)))))"

section \<open>The connection's listeners\<close>

datatype handler = Join | Leave | Message | Reaction | PresenceRequest | Typing

text \<open>The own properties of \<^verbatim>\<open>messageHandlers\<close>.\<close>

definition messageHandlers :: "string \<rightharpoonup> handler" where
  "messageHandlers =
     [''join'' \<mapsto> Join, ''leave'' \<mapsto> Leave, ''message'' \<mapsto> Message,
      ''reaction'' \<mapsto> Reaction, ''presence_request'' \<mapsto> PresenceRequest,
      ''typing'' \<mapsto> Typing]"

fun call_handler :: "handler \<Rightarrow> int \<Rightarrow> conn \<Rightarrow> json \<Rightarrow> state \<Rightarrow> state completion" where
  "call_handler Join now ws data s = Returns (handle_join ws data s)"
| "call_handler Leave now ws data s = handle_leave ws data s"
| "call_handler Message now ws data s = Returns (handle_message now ws data s)"
| "call_handler Reaction now ws data s = Returns (handle_reaction now ws data s)"
| "call_handler PresenceRequest now ws data s = Returns (handle_presence_request ws data s)"
| "call_handler Typing now ws data s = handle_typing ws data s"

text \<open>
  \<^verbatim>\<open>handler(ws, data)\<close> when \<^verbatim>\<open>handler\<close> was read from \<^verbatim>\<open>Object.prototype\<close>, called
  with \<^verbatim>\<open>this\<close> undefined: \<^verbatim>\<open>Object(ws, data)\<close> returns \<^verbatim>\<open>ws\<close> and
  \<^verbatim>\<open>Object.prototype.toString\<close> returns a string, both without any effect; the other
  functions convert \<^verbatim>\<open>this\<close> to an object and throw, and \<^verbatim>\<open>__proto__\<close> is no function.
\<close>

definition call_inherited :: "string \<Rightarrow> state \<Rightarrow> state completion" where
  "call_inherited key s =
     (if key = ''constructor'' \<or> key = ''toString'' then Returns s else Throws TypeError s)"

text \<open>
  The \<^verbatim>\<open>message\<close> listener. \<open>msg\<close> is the outcome of \<^verbatim>\<open>JSON.parse\<close> on the frame and
  \<open>now\<close> what \<^verbatim>\<open>Date.now()\<close> returns while it is handled. The read
  \<^verbatim>\<open>messageHandlers[data.type]\<close> converts the type to a property key, which may throw.
\<close>

definition on_message ::
  "(jsnum \<Rightarrow> string) \<Rightarrow> int \<Rightarrow> conn \<Rightarrow> json option \<Rightarrow> state \<Rightarrow> state completion" where
  "on_message nts now ws msg s =
     (let data = parseJSON msg in
      if \<not> truthy data then Returns (send ws (ErrorEv ''Invalid JSON'') s)
      else
        (case to_string_opt nts (get data ''type'') of
           None \<Rightarrow> Throws TypeError s
         | Some key \<Rightarrow>
             (case lookup messageHandlers key of
                Own h \<Rightarrow> call_handler h now ws data s
              | Inherited k \<Rightarrow> call_inherited k s
              | Undefined \<Rightarrow>
                  Returns (send ws (ErrorEv (''Unknown message type: '' @ key)) s))))"

text \<open>
  The \<^verbatim>\<open>close\<close> listener iterates \<^verbatim>\<open>ws.rooms\<close>; each \<^verbatim>\<open>leaveRoom\<close> deletes only the
  room being visited, so the iteration visits the rooms the set held at the start, and
  stops where a call throws.
\<close>

fun leave_all :: "conn \<Rightarrow> string list \<Rightarrow> state \<Rightarrow> state completion" where
  "leave_all ws [] s = Returns s"
| "leave_all ws (room # rest) s =
     (case leaveRoom ws room s of
        Returns s1 \<Rightarrow> leave_all ws rest s1
      | Throws e s1 \<Rightarrow> Throws e s1)"

definition on_close :: "conn \<Rightarrow> state \<Rightarrow> state completion" where
  "on_close ws s = leave_all ws (ws_rooms (conns s ws)) s"

section \<open>Runs of the server\<close>

text \<open>
  What happens to the server: a frame arrives on a connection, a connection closes, or
  the transport changes a connection's \<^verbatim>\<open>readyState\<close>. A run handles a list of events
  from the left and ends at the first listener that throws.
\<close>

datatype event =
    Frame conn "json option" int
  | Close conn
  | Transport conn ready_state

fun step :: "(jsnum \<Rightarrow> string) \<Rightarrow> event \<Rightarrow> state \<Rightarrow> state completion" where
  "step nts (Frame ws msg now) s = on_message nts now ws msg s"
| "step nts (Close ws) s = on_close ws s"
| "step nts (Transport ws rs) s =
     Returns (s\<lparr>conns := (conns s)(ws := (conns s ws)\<lparr>readyState := rs\<rparr>)\<rparr>)"

fun run :: "(jsnum \<Rightarrow> string) \<Rightarrow> event list \<Rightarrow> state \<Rightarrow> state completion" where
  "run nts [] s = Returns s"
| "run nts (e # es) s =
     (case step nts e s of
        Returns s1 \<Rightarrow> run nts es s1
      | Throws err s1 \<Rightarrow> Throws err s1)"

section \<open>Predicates of the specification\<close>

text \<open>The fields each handler passes to \<^verbatim>\<open>requireFields\<close>.\<close>

definition required_fields :: "handler \<Rightarrow> string list" where
  "required_fields h =
     (case h of
        Join \<Rightarrow> [''room'', ''sender'']
      | Leave \<Rightarrow> [''room'']
      | Message \<Rightarrow> [''room'', ''content'']
      | Reaction \<Rightarrow> [''room'', ''target'', ''emoji'']
      | PresenceRequest \<Rightarrow> [''room'']
      | Typing \<Rightarrow> [''room''])"

text \<open>
  The directory holds no empty member set, and it agrees with the connections' own
  records: a connection is in a room's member set exactly when the room is in the
  connection's \<^verbatim>\<open>rooms\<close>.
\<close>

definition room_inv :: "state \<Rightarrow> bool" where
  "room_inv s =
     ((\<forall>r m. rooms s r = Some m \<longrightarrow> m \<noteq> []) \<and>
      (\<forall>r ws. (r \<in> set (ws_rooms (conns s ws))) = (\<exists>m. rooms s r = Some m \<and> ws \<in> set m)))"

text \<open>A value that holds no number other than finite ones.\<close>

fun all_finite :: "json \<Rightarrow> bool" where
  "all_finite JNull = True"
| "all_finite (JBool b) = True"
| "all_finite (JNum n) = (n \<noteq> PosInfinity \<and> n \<noteq> NegInfinity)"
| "all_finite (JStr s) = True"
| "all_finite (JArr xs) = list_all all_finite xs"
| "all_finite (JObj kvs) = list_all (\<lambda>(k, v). all_finite v) kvs"

text \<open>
  No own property of \<^verbatim>\<open>typingUsers\<close> hides a property of \<^verbatim>\<open>Object.prototype\<close>.
\<close>

definition no_inherited_own :: "state \<Rightarrow> bool" where
  "no_inherited_own s = list_all (\<lambda>k. typingUsers s k = None) object_prototype_keys"

text \<open>
  From \<open>s\<close> to \<open>s'\<close> the outbox only grew, and every event added satisfies \<open>Q\<close>.
\<close>

definition emits_only :: "(payload \<Rightarrow> bool) \<Rightarrow> state \<Rightarrow> state \<Rightarrow> bool" where
  "emits_only Q s s' = (\<exists>ys. outbox s' = outbox s @ ys \<and> list_all (\<lambda>(c, p). Q p) ys)"

definition not_invalid_json :: "payload \<Rightarrow> bool" where
  "not_invalid_json p = (p \<noteq> ErrorEv ''Invalid JSON'')"

text \<open>
  Every identity in a room's typing set is the display identity of a member of the room.
\<close>

definition typing_inv :: "state \<Rightarrow> bool" where
  "typing_inv s =
     (\<forall>r t u. typingUsers s r = Some t \<longrightarrow> u \<in> set t \<longrightarrow>
        (\<exists>c. c \<in> set (members s r) \<and> username (conns s c) = Some u))"

text \<open>
  A frame keeps the identity of its connection when the connection had none before or
  has the same one afterwards; a run keeps identities when each of its events does, in
  the state where it is handled.
\<close>

fun keeps_identity :: "state \<Rightarrow> event \<Rightarrow> state \<Rightarrow> bool" where
  "keeps_identity s (Frame ws msg now) s' =
     (username (conns s ws) = None \<or> username (conns s' ws) = username (conns s ws))"
| "keeps_identity s (Close ws) s' = True"
| "keeps_identity s (Transport ws rs) s' = True"

fun identities_kept :: "(jsnum \<Rightarrow> string) \<Rightarrow> event list \<Rightarrow> state \<Rightarrow> bool" where
  "identities_kept nts [] s = True"
| "identities_kept nts (e # es) s =
     (keeps_identity s e (final (step nts e s)) \<and>
      (case step nts e s of
         Returns s1 \<Rightarrow> identities_kept nts es s1
       | Throws err s1 \<Rightarrow> True))"

section \<open>Inbound messages and example states\<close>

text \<open>The decoded inbound messages of the wire protocol that the examples use.\<close>

definition join_msg :: "string \<Rightarrow> string \<Rightarrow> json" where
  "join_msg room sender =
     JObj [(''type'', JStr ''join''), (''room'', JStr room), (''sender'', JStr sender)]"

definition leave_msg :: "string \<Rightarrow> json" where
  "leave_msg room = JObj [(''type'', JStr ''leave''), (''room'', JStr room)]"

definition typing_msg :: "string \<Rightarrow> bool \<Rightarrow> json" where
  "typing_msg room b =
     JObj [(''type'', JStr ''typing''), (''room'', JStr room), (''typing'', JBool b)]"

definition chat_msg :: "string \<Rightarrow> string \<Rightarrow> json \<Rightarrow> json" where
  "chat_msg room content ts =
     JObj [(''type'', JStr ''message''), (''room'', JStr room), (''content'', JStr content),
           (''timestamp'', ts)]"

text \<open>
  No example holds a number in a \<^verbatim>\<open>type\<close> field, so any text of numbers serves them.
\<close>

definition any_text :: "jsnum \<Rightarrow> string" where
  "any_text n = []"

text \<open>
  The states the examples pass through. Connection 0 joins \<^verbatim>\<open>general\<close> as alice and
  starts typing; then either it joins \<^verbatim>\<open>lobby\<close> under the name bob, or connection 1
  joins \<^verbatim>\<open>lobby\<close> under the name alice.
\<close>

definition alice :: conn_state where
  "alice = \<lparr>username = Some ''alice'', ws_rooms = [''general''], readyState = OPEN\<rparr>"

definition alice_joined :: state where
  "alice_joined =
     \<lparr>rooms = [''general'' \<mapsto> [0]], typingUsers = Map.empty,
      conns = (\<lambda>_. init_conn)(0 := alice),
      outbox = [(0, SystemEv ''Joined room: general''), (0, PresenceEv ''general'' [''alice''])]\<rparr>"

definition alice_typing :: state where
  "alice_typing =
     alice_joined\<lparr>typingUsers := [''general'' \<mapsto> [''alice'']],
       outbox := outbox alice_joined @ [(0, TypingEv ''general'' [''alice''])]\<rparr>"

definition alice_renamed :: state where
  "alice_renamed =
     alice_typing\<lparr>rooms := [''general'' \<mapsto> [0], ''lobby'' \<mapsto> [0]],
       conns := (\<lambda>_. init_conn)
         (0 := \<lparr>username = Some ''bob'', ws_rooms = [''general'', ''lobby''], readyState = OPEN\<rparr>),
       outbox := outbox alice_typing @
         [(0, SystemEv ''Joined room: lobby''), (0, PresenceEv ''lobby'' [''bob''])]\<rparr>"

definition namesake_joined :: state where
  "namesake_joined =
     alice_typing\<lparr>rooms := [''general'' \<mapsto> [0], ''lobby'' \<mapsto> [1]],
       conns := (\<lambda>_. init_conn)
         (0 := alice,
          1 := \<lparr>username = Some ''alice'', ws_rooms = [''lobby''], readyState = OPEN\<rparr>),
       outbox := outbox alice_typing @
         [(1, SystemEv ''Joined room: lobby''), (1, PresenceEv ''lobby'' [''alice''])]\<rparr>"

text \<open>
  Bob (connection 1) has joined \<^verbatim>\<open>general\<close> after alice started typing, and types too.
\<close>

definition both_typing :: state where
  "both_typing =
     \<lparr>rooms = [''general'' \<mapsto> [0, 1]],
      typingUsers = [''general'' \<mapsto> [''alice'', ''bob'']],
      conns = (\<lambda>_. init_conn)
        (0 := alice,
         1 := \<lparr>username = Some ''bob'', ws_rooms = [''general''], readyState = OPEN\<rparr>),
      outbox = outbox alice_typing @
        [(0, UserJoined ''general'' (Some ''bob'')), (1, SystemEv ''Joined room: general''),
         (0, PresenceEv ''general'' [''alice'', ''bob'']),
         (1, PresenceEv ''general'' [''alice'', ''bob'']),
         (0, TypingEv ''general'' [''alice'', ''bob'']),
         (1, TypingEv ''general'' [''alice'', ''bob''])]\<rparr>"

section \<open>Facts about the helpers\<close>

lemmas model_defs =
  on_message_def parseJSON_def lookup_def messageHandlers_def object_prototype_keys_def
  call_inherited_def handle_join_def handle_leave_def handle_message_def handle_reaction_def
  handle_presence_request_def handle_typing_def requireFields_def invalid_field_def trim_def
  is_white_space_def joinRoom_def leaveRoom_def remove_member_def announce_left_def
  delete_user_def members_def set_add_def set_delete_def broadcastToRoom_def send_def
  broadcastPresence_def presence_users_def init_state_def init_conn_def on_close_def
  or_else_def date_now_def required_fields_def Let_def

lemmas scenario_defs =
  alice_def alice_joined_def alice_typing_def alice_renamed_def namesake_joined_def

lemma set_set_add [simp]: "set (set_add x xs) = insert x (set xs)"
  by (auto simp: set_add_def)

lemma set_set_delete [simp]: "set (set_delete x xs) = set xs - {x}"
  by (auto simp: set_delete_def)

lemma set_add_nonempty [simp]: "set_add x xs \<noteq> []"
  by (auto simp: set_add_def)

lemma set_delete_Nil_iff: "(set_delete x xs = []) = (set xs \<subseteq> {x})"
  by (induction xs) (auto simp: set_delete_def)

lemma set_delete_idem [simp]: "set_delete x (set_delete x xs) = set_delete x xs"
  by (simp add: set_delete_def)

lemma set_delete_absent: "x \<notin> set xs \<Longrightarrow> set_delete x xs = xs"
  by (simp add: set_delete_def)

lemma delete_user_filter: "delete_user u t = filter (\<lambda>x. u \<noteq> Some x) t"
  by (cases u) (simp_all add: delete_user_def set_delete_def removeAll_filter_not_eq)

lemma delete_user_idem [simp]: "delete_user u (delete_user u t) = delete_user u t"
  by (simp add: delete_user_def split: option.splits)

lemma send_fields [simp]:
  "rooms (send ws d s) = rooms s"
  "typingUsers (send ws d s) = typingUsers s"
  "conns (send ws d s) = conns s"
  by (simp_all add: send_def)

lemma broadcastToRoom_fields [simp]:
  "rooms (broadcastToRoom r p x s) = rooms s"
  "typingUsers (broadcastToRoom r p x s) = typingUsers s"
  "conns (broadcastToRoom r p x s) = conns s"
  by (simp_all add: broadcastToRoom_def Let_def split: option.splits)

lemma broadcastPresence_fields [simp]:
  "rooms (broadcastPresence r s) = rooms s"
  "typingUsers (broadcastPresence r s) = typingUsers s"
  "conns (broadcastPresence r s) = conns s"
  by (simp_all add: broadcastPresence_def split: option.splits)

lemma announce_left_fields [simp]:
  "rooms (announce_left ws room s) = rooms s"
  "typingUsers (announce_left ws room s) = typingUsers s"
  "conns (announce_left ws room s) = conns s"
  by (simp_all add: announce_left_def Let_def)

lemma outbox_broadcastToRoom:
  "outbox (broadcastToRoom room pl x s) =
     outbox s @ map (\<lambda>c. (c, JSON_stringify pl))
       (filter (\<lambda>c. readyState (conns s c) = OPEN \<and> Some c \<noteq> x) (members s room))"
  by (simp add: broadcastToRoom_def Let_def members_def split: option.splits)

text \<open>What the encoding changes: nothing in a value whose numbers are all finite.\<close>

lemma encoded_all_finite: "all_finite v \<Longrightarrow> encoded v = v"
proof (induction v)
  case (JNum n)
  then show ?case by (cases n) simp_all
next
  case (JArr xs)
  then have "map encoded xs = xs"
    by (intro map_idI) (simp add: list_all_iff)
  then show ?case by simp
next
  case (JObj kvs)
  have "map (\<lambda>(k, v). (k, encoded v)) kvs = kvs"
  proof (intro map_idI)
    fix kv assume kv: "kv \<in> set kvs"
    obtain k v where eq: "kv = (k, v)" by (cases kv)
    with kv JObj.prems have "all_finite v" by (auto simp: list_all_iff)
    moreover from kv eq have "v \<in> Basic_BNFs.snds kv" by simp
    ultimately have "encoded v = v" using JObj.IH kv by blast
    with eq show "(case kv of (k, v) \<Rightarrow> (k, encoded v)) = kv" by simp
  qed
  then show ?case by simp
qed simp_all

text \<open>A string trims to nothing exactly when it consists of white space.\<close>

lemma trim_empty_iff: "(trim v = []) = (\<forall>c\<in>set v. is_white_space c)"
proof
  assume "trim v = []"
  then have rest: "\<forall>x\<in>set (dropWhile is_white_space v). is_white_space x"
    by (simp add: trim_def dropWhile_eq_Nil_conv)
  have "dropWhile is_white_space v = []"
  proof (rule ccontr)
    assume ne: "dropWhile is_white_space v \<noteq> []"
    then have "\<not> is_white_space (hd (dropWhile is_white_space v))"
      by (rule hd_dropWhile)
    moreover have "hd (dropWhile is_white_space v) \<in> set (dropWhile is_white_space v)"
      using ne by simp
    ultimately show False using rest by blast
  qed
  then show "\<forall>c\<in>set v. is_white_space c"
    by (simp add: dropWhile_eq_Nil_conv)
next
  assume "\<forall>c\<in>set v. is_white_space c"
  then have "dropWhile is_white_space v = []"
    by (simp add: dropWhile_eq_Nil_conv)
  then show "trim v = []" by (simp only: trim_def rev.simps dropWhile.simps)
qed

lemma invalid_field_iff:
  "invalid_field data f =
     (\<forall>v. get data f = Some (JStr v) \<longrightarrow> (\<forall>c\<in>set v. is_white_space c))"
  by (auto simp: invalid_field_def trim_empty_iff split: option.splits json.splits)

lemma requireFields_invalid:
  "filter (invalid_field data) fs \<noteq> [] \<Longrightarrow>
   requireFields ws data fs s =
     (False, send ws (ErrorEv (''Missing or invalid fields: '' @
                join '', '' (filter (invalid_field data) fs))) s)"
  by (simp add: requireFields_def Let_def)

lemma requireFields_valid:
  "filter (invalid_field data) fs = [] \<Longrightarrow> requireFields ws data fs s = (True, s)"
  by (simp add: requireFields_def Let_def)

lemma requireFields_fields:
  assumes "requireFields ws data fs s = (b, s1)"
  shows "rooms s1 = rooms s" and "typingUsers s1 = typingUsers s" and "conns s1 = conns s"
  using assms by (auto simp: requireFields_def Let_def split: if_splits)

section \<open>Dispatch and the example states\<close>

lemma on_message_join:
  "on_message nts now ws (Some (join_msg r u)) s = Returns (handle_join ws (join_msg r u) s)"
  by (simp add: on_message_def parseJSON_def join_msg_def lookup_def messageHandlers_def)

lemma on_message_leave:
  "on_message nts now ws (Some (leave_msg r)) s = handle_leave ws (leave_msg r) s"
  by (simp add: on_message_def parseJSON_def leave_msg_def lookup_def messageHandlers_def)

lemma on_message_typing:
  "on_message nts now ws (Some (typing_msg r b)) s = handle_typing ws (typing_msg r b) s"
  by (simp add: on_message_def parseJSON_def typing_msg_def lookup_def messageHandlers_def)

text \<open>A type that is a string naming a handler reaches that handler.\<close>

lemma on_message_dispatch:
  assumes "get data ''type'' = Some (JStr ty)" and "messageHandlers ty = Some h"
  shows "on_message nts now ws (Some data) s = call_handler h now ws data s"
proof -
  from assms(1) obtain kvs where "data = JObj kvs" by (cases data) simp_all
  then have "truthy data" by simp
  with assms show ?thesis by (simp add: on_message_def parseJSON_def lookup_def)
qed

lemma join_alice: "handle_join 0 (join_msg ''general'' ''alice'') init_state = alice_joined"
  by (simp add: scenario_defs join_msg_def model_defs)

lemma typing_alice:
  "handle_typing 0 (typing_msg ''general'' True) alice_joined = Returns alice_typing"
  by (simp add: scenario_defs typing_msg_def model_defs)

lemma typing_off_alice:
  "handle_typing 0 (typing_msg ''general'' False) alice_joined =
     Returns (alice_joined\<lparr>typingUsers := [''general'' \<mapsto> []],
       outbox := outbox alice_joined @ [(0, TypingEv ''general'' [])]\<rparr>)"
  by (simp add: scenario_defs typing_msg_def model_defs)

lemma rename_alice: "handle_join 0 (join_msg ''lobby'' ''bob'') alice_typing = alice_renamed"
  by (simp add: scenario_defs join_msg_def model_defs fun_upd_twist)

lemma leave_after_rename:
  "handle_leave 0 (leave_msg ''general'') alice_renamed =
     Returns (alice_renamed\<lparr>rooms := [''lobby'' \<mapsto> [0]],
       conns := (\<lambda>_. init_conn)
         (0 := \<lparr>username = Some ''bob'', ws_rooms = [''lobby''], readyState = OPEN\<rparr>),
       outbox := outbox alice_renamed @ [(0, SystemEv ''Left room: general'')]\<rparr>)"
  by (simp add: scenario_defs leave_msg_def model_defs fun_upd_twist)

lemma join_namesake:
  "handle_join 1 (join_msg ''lobby'' ''alice'') alice_typing = namesake_joined"
  by (simp add: scenario_defs join_msg_def model_defs fun_upd_twist)

lemma leave_namesake:
  "handle_leave 1 (leave_msg ''general'') namesake_joined =
     Returns (namesake_joined\<lparr>typingUsers := Map.empty,
       outbox := outbox namesake_joined @
         [(0, UserLeft ''general'' (Some ''alice'')), (1, SystemEv ''Left room: general''),
          (0, PresenceEv ''general'' [''alice''])]\<rparr>)"
  by (simp add: scenario_defs leave_msg_def model_defs fun_upd_twist)

lemma leave_alice_typing:
  "leaveRoom 0 ''general'' alice_typing =
     Returns (alice_typing\<lparr>rooms := Map.empty, typingUsers := Map.empty,
       conns := (\<lambda>_. init_conn)
         (0 := \<lparr>username = Some ''alice'', ws_rooms = [], readyState = OPEN\<rparr>),
       outbox := outbox alice_typing @ [(0, SystemEv ''Left room: general'')]\<rparr>)"
  by (simp add: scenario_defs model_defs)

lemma leave_alice_joined:
  "leaveRoom 0 ''general'' alice_joined =
     Returns (alice_joined\<lparr>rooms := Map.empty,
       conns := (\<lambda>_. init_conn)
         (0 := \<lparr>username = Some ''alice'', ws_rooms = [], readyState = OPEN\<rparr>),
       outbox := outbox alice_joined @ [(0, SystemEv ''Left room: general'')]\<rparr>)"
  by (simp add: scenario_defs model_defs)

section \<open>The room directory\<close>

lemma room_inv_cong:
  "rooms s' = rooms s \<Longrightarrow> (\<forall>ws. ws_rooms (conns s' ws) = ws_rooms (conns s ws)) \<Longrightarrow>
   room_inv s' = room_inv s"
  by (simp add: room_inv_def)

lemma room_inv_init: "room_inv init_state"
  by (simp add: room_inv_def init_state_def init_conn_def)

lemma room_inv_members:
  assumes "room_inv s"
  shows "(room \<in> dom (rooms s)) = (members s room \<noteq> [])"
    and "(ws \<in> set (members s room)) = (room \<in> set (ws_rooms (conns s ws)))"
  using assms by (cases "rooms s room"; auto simp: room_inv_def members_def)+

lemma rooms_joinRoom:
  "rooms (joinRoom ws room s) = (rooms s)(room \<mapsto> set_add ws (members s room))"
  by (simp add: joinRoom_def Let_def)

lemma conns_joinRoom:
  "conns (joinRoom ws room s) =
     (conns s)(ws := (conns s ws)\<lparr>ws_rooms := set_add room (ws_rooms (conns s ws))\<rparr>)"
  by (simp add: joinRoom_def Let_def)

lemma typingUsers_joinRoom [simp]: "typingUsers (joinRoom ws room s) = typingUsers s"
  by (simp add: joinRoom_def Let_def)

lemma room_inv_joinRoom: "room_inv s \<Longrightarrow> room_inv (joinRoom ws room s)"
proof (cases "rooms s room")
  case None
  assume "room_inv s"
  with None show ?thesis
    unfolding room_inv_def rooms_joinRoom conns_joinRoom by (auto simp: members_def)
next
  case (Some m)
  assume "room_inv s"
  with Some show ?thesis
    unfolding room_inv_def rooms_joinRoom conns_joinRoom by (auto simp: members_def)
qed

lemma rooms_remove_member:
  "rooms (remove_member ws room s) =
     (case rooms s room of
        None \<Rightarrow> rooms s
      | Some m \<Rightarrow> if set_delete ws m = [] then (rooms s)(room := None)
                  else (rooms s)(room \<mapsto> set_delete ws m))"
  by (simp add: remove_member_def Let_def split: option.splits)

lemma conns_remove_member:
  "conns (remove_member ws room s) =
     (conns s)(ws := (conns s ws)\<lparr>ws_rooms := set_delete room (ws_rooms (conns s ws))\<rparr>)"
  by (simp add: remove_member_def Let_def split: option.splits)

lemma typingUsers_remove_member [simp]: "typingUsers (remove_member ws room s) = typingUsers s"
  by (simp add: remove_member_def Let_def split: option.splits)

lemma outbox_remove_member [simp]: "outbox (remove_member ws room s) = outbox s"
  by (simp add: remove_member_def Let_def split: option.splits)

lemma username_remove_member [simp]:
  "username (conns (remove_member ws room s) c) = username (conns s c)"
  by (simp add: conns_remove_member)

lemma room_inv_remove_member: "room_inv s \<Longrightarrow> room_inv (remove_member ws room s)"
  unfolding room_inv_def rooms_remove_member conns_remove_member
  by (auto simp: set_delete_Nil_iff split: option.splits if_splits)

lemma leaveRoom_rooms [simp]:
  "rooms (final (leaveRoom ws room s)) = rooms (remove_member ws room s)"
  by (simp add: leaveRoom_def Let_def split: property.splits)

lemma leaveRoom_conns [simp]:
  "conns (final (leaveRoom ws room s)) = conns (remove_member ws room s)"
  by (simp add: leaveRoom_def Let_def split: property.splits)

lemma room_inv_leaveRoom: "room_inv s \<Longrightarrow> room_inv (final (leaveRoom ws room s))"
  using room_inv_cong [of "final (leaveRoom ws room s)" "remove_member ws room s"]
  by (simp add: room_inv_remove_member)

lemma room_inv_username:
  "room_inv (s\<lparr>conns := (conns s)(ws := (conns s ws)\<lparr>username := u\<rparr>)\<rparr>) = room_inv s"
  by (rule room_inv_cong) simp_all

lemma room_inv_readyState:
  "room_inv (s\<lparr>conns := (conns s)(ws := (conns s ws)\<lparr>readyState := u\<rparr>)\<rparr>) = room_inv s"
  by (rule room_inv_cong) simp_all

lemma room_inv_requireFields:
  "requireFields ws data fs s = (b, s1) \<Longrightarrow> room_inv s1 = room_inv s"
  by (rule room_inv_cong) (auto simp: requireFields_def Let_def split: if_splits)

lemma room_inv_typingUsers [simp]: "room_inv (s\<lparr>typingUsers := x\<rparr>) = room_inv s"
  by (rule room_inv_cong) simp_all

lemma room_inv_broadcastToRoom [simp]: "room_inv (broadcastToRoom r p x s) = room_inv s"
  by (rule room_inv_cong) simp_all

lemma room_inv_broadcastPresence [simp]: "room_inv (broadcastPresence r s) = room_inv s"
  by (rule room_inv_cong) simp_all

lemma room_inv_send [simp]: "room_inv (send ws p s) = room_inv s"
  by (rule room_inv_cong) simp_all

lemma room_inv_handle_join: "room_inv s \<Longrightarrow> room_inv (handle_join ws data s)"
  by (auto simp: handle_join_def room_inv_joinRoom room_inv_username
      dest!: room_inv_requireFields split: prod.splits bool.splits)

lemma room_inv_handle_leave: "room_inv s \<Longrightarrow> room_inv (final (handle_leave ws data s))"
  by (auto simp: handle_leave_def room_inv_leaveRoom
      dest!: room_inv_requireFields split: prod.splits bool.splits)

lemma room_inv_handle_message: "room_inv s \<Longrightarrow> room_inv (handle_message now ws data s)"
  by (auto simp: handle_message_def
      dest!: room_inv_requireFields split: prod.splits bool.splits)

lemma room_inv_handle_reaction: "room_inv s \<Longrightarrow> room_inv (handle_reaction now ws data s)"
  by (auto simp: handle_reaction_def
      dest!: room_inv_requireFields split: prod.splits bool.splits)

lemma room_inv_handle_presence_request:
  "room_inv s \<Longrightarrow> room_inv (handle_presence_request ws data s)"
  by (auto simp: handle_presence_request_def
      dest!: room_inv_requireFields split: prod.splits bool.splits)

lemma room_inv_handle_typing: "room_inv s \<Longrightarrow> room_inv (final (handle_typing ws data s))"
  by (auto simp: handle_typing_def Let_def
      dest!: room_inv_requireFields
      split: prod.splits bool.splits option.splits property.splits)

lemma room_inv_call_handler:
  "room_inv s \<Longrightarrow> room_inv (final (call_handler h now ws data s))"
  by (cases h)
     (simp_all add: room_inv_handle_join room_inv_handle_leave room_inv_handle_message
        room_inv_handle_reaction room_inv_handle_presence_request room_inv_handle_typing)

lemma room_inv_on_message:
  "room_inv s \<Longrightarrow> room_inv (final (on_message nts now ws msg s))"
  by (simp add: on_message_def Let_def room_inv_call_handler call_inherited_def
      split: property.splits option.splits)

text \<open>The loop of the \<^verbatim>\<open>close\<close> listener, by induction on the rooms still to visit.\<close>

lemma room_inv_leave_all: "room_inv s \<Longrightarrow> room_inv (final (leave_all ws rs s))"
proof (induction rs arbitrary: s)
  case Nil
  then show ?case by simp
next
  case (Cons r rs)
  from Cons.prems have inv: "room_inv (final (leaveRoom ws r s))"
    by (rule room_inv_leaveRoom)
  show ?case
  proof (cases "leaveRoom ws r s")
    case (Returns s1)
    with inv have "room_inv s1" by simp
    then have "room_inv (final (leave_all ws rs s1))" by (rule Cons.IH)
    with Returns show ?thesis by simp
  next
    case (Throws e s1)
    with inv show ?thesis by simp
  qed
qed

lemma room_inv_step: "room_inv s \<Longrightarrow> room_inv (final (step nts e s))"
  by (cases e)
     (simp_all add: room_inv_on_message on_close_def room_inv_leave_all room_inv_readyState)

lemma room_inv_run: "room_inv s \<Longrightarrow> room_inv (final (run nts es s))"
proof (induction es arbitrary: s)
  case Nil
  then show ?case by simp
next
  case (Cons e es)
  from Cons.prems have inv: "room_inv (final (step nts e s))"
    by (rule room_inv_step)
  show ?case
  proof (cases "step nts e s")
    case (Returns s1)
    with inv have "room_inv s1" by simp
    then have "room_inv (final (run nts es s1))" by (rule Cons.IH)
    with Returns show ?thesis by simp
  next
    case (Throws err s1)
    with inv show ?thesis by simp
  qed
qed

lemma room_inv_reachable: "room_inv (final (run nts evs init_state))"
  using room_inv_init by (rule room_inv_run)

lemma members_leaveRoom:
  "members (final (leaveRoom ws room s)) room = set_delete ws (members s room)"
  by (simp add: members_def rooms_remove_member set_delete_def split: option.splits)

lemma dom_leaveRoom:
  assumes "room_inv s"
  shows "(room \<in> dom (rooms (final (leaveRoom ws room s)))) =
         (set_delete ws (members s room) \<noteq> [])"
proof -
  from assms have "room_inv (final (leaveRoom ws room s))" by (rule room_inv_leaveRoom)
  then have "(room \<in> dom (rooms (final (leaveRoom ws room s)))) =
    (members (final (leaveRoom ws room s)) room \<noteq> [])"
    by (rule room_inv_members(1))
  then show ?thesis by (simp only: members_leaveRoom)
qed

text \<open>
  Claim C1. After every sequence of events from the initial state (frames of any kind,
  among them joins and leaves, closes, and changes of the transport's state), a room
  name is a key of the room directory exactly when its member set is not empty, and a
  connection is in a room's member set exactly when the room is in the connection's own
  record. Joining stores the member set with the joiner added, creating it from the
  empty set when the room had no entry; leaving such a state keeps the room's entry
  exactly when a member remains.
\<close>

theorem room_listed_iff_nonempty:
  "(room \<in> dom (rooms (final (run nts evs init_state)))) =
     (members (final (run nts evs init_state)) room \<noteq> []) \<and>
   (ws \<in> set (members (final (run nts evs init_state)) room)) =
     (room \<in> set (ws_rooms (conns (final (run nts evs init_state)) ws))) \<and>
   rooms (joinRoom ws room s) room = Some (set_add ws (members s room)) \<and>
   (room \<in> dom (rooms (final (leaveRoom ws room (final (run nts evs init_state)))))) =
     (set_delete ws (members (final (run nts evs init_state)) room) \<noteq> [])"
proof -
  have inv: "room_inv (final (run nts evs init_state))"
    by (rule room_inv_reachable)
  have join: "rooms (joinRoom ws room s) room = Some (set_add ws (members s room))"
    by (simp add: rooms_joinRoom)
  from inv join show ?thesis
    using room_inv_members dom_leaveRoom by blast
qed

text \<open>
  After alice joined \<^verbatim>\<open>general\<close> the room is listed with her as its member; when she
  leaves, the entry is gone.
\<close>

theorem room_listed_iff_nonempty_witness:
  "''general'' \<in> dom (rooms (final (run any_text
      [Frame 0 (Some (join_msg ''general'' ''alice'')) 0] init_state))) \<and>
   0 \<in> set (members (final (run any_text
      [Frame 0 (Some (join_msg ''general'' ''alice'')) 0] init_state)) ''general'') \<and>
   ''general'' \<notin> dom (rooms (final (leaveRoom 0 ''general'' (final (run any_text
      [Frame 0 (Some (join_msg ''general'' ''alice'')) 0] init_state)))))"
  using room_listed_iff_nonempty [of "''general''" any_text
      "[Frame 0 (Some (join_msg ''general'' ''alice'')) 0]" 0]
  by (simp add: on_message_join join_alice leave_alice_joined)
     (simp add: scenario_defs members_def)

section \<open>Validation of required fields\<close>

lemma call_handler_invalid:
  "filter (invalid_field data) (required_fields h) \<noteq> [] \<Longrightarrow>
   call_handler h now ws data s =
     Returns (send ws (ErrorEv (''Missing or invalid fields: '' @
                join '', '' (filter (invalid_field data) (required_fields h)))) s)"
  by (cases h)
     (simp_all add: handle_join_def handle_leave_def handle_message_def
        handle_reaction_def handle_presence_request_def handle_typing_def
        required_fields_def requireFields_invalid del: filter.simps)

text \<open>
  Claim C7. Take an inbound event whose type names handler \<open>h\<close> (join, leave, message,
  reaction, presence_request or typing), and let \<open>f\<close> be a field that \<open>h\<close> requires and
  that is absent from the event, not a string, or a string of white space only (the
  empty string among them). Then the listener runs \<open>h\<close>, \<open>f\<close> is among the fields
  reported, and the state returned differs from the one before by at most one thing:
  when the sender's connection is open, its outbox has one more entry, the error event
  to the sender that lists the invalid required fields. Room directory, typing sets and
  connection records are those of the start, and no other event is sent.
\<close>

theorem invalid_fields_rejected:
  assumes "get data ''type'' = Some (JStr ty)" and "messageHandlers ty = Some h"
    and "f \<in> set (required_fields h)"
    and "\<forall>v. get data f = Some (JStr v) \<longrightarrow> (\<forall>c\<in>set v. is_white_space c)"
  shows "on_message nts now ws (Some data) s = call_handler h now ws data s \<and>
         f \<in> set (filter (invalid_field data) (required_fields h)) \<and>
         on_message nts now ws (Some data) s =
           Returns (if readyState (conns s ws) = OPEN
                    then s\<lparr>outbox := outbox s @
                           [(ws, ErrorEv (''Missing or invalid fields: '' @
                              join '', '' (filter (invalid_field data) (required_fields h))))]\<rparr>
                    else s)"
proof -
  have run: "on_message nts now ws (Some data) s = call_handler h now ws data s"
    using assms(1,2) by (rule on_message_dispatch)
  from assms(4) have "invalid_field data f" by (simp add: invalid_field_iff)
  with assms(3) have mem: "f \<in> set (filter (invalid_field data) (required_fields h))"
    by simp
  then have "filter (invalid_field data) (required_fields h) \<noteq> []"
    by (metis empty_iff empty_set)
  then show ?thesis using mem run by (simp add: call_handler_invalid send_def)
qed

text \<open>
  A join whose room is blank and whose sender is a number: one error event, naming both.
\<close>

theorem invalid_fields_rejected_witness:
  "get (JObj [(''type'', JStr ''join''), (''room'', JStr ''  ''), (''sender'', JNum (Finite 7))])
     ''type'' = Some (JStr ''join'') \<and>
   messageHandlers ''join'' = Some Join \<and>
   ''room'' \<in> set (required_fields Join) \<and>
   on_message any_text 0 0
     (Some (JObj [(''type'', JStr ''join''), (''room'', JStr ''  ''), (''sender'', JNum (Finite 7))]))
     init_state =
   Returns (init_state\<lparr>outbox := [(0, ErrorEv ''Missing or invalid fields: room, sender'')]\<rparr>)"
proof -
  let ?data = "JObj [(''type'', JStr ''join''), (''room'', JStr ''  ''), (''sender'', JNum (Finite 7))]"
  have t: "get ?data ''type'' = Some (JStr ''join'')" by simp
  have h: "messageHandlers ''join'' = Some Join" by (simp add: messageHandlers_def)
  have f: "''room'' \<in> set (required_fields Join)" by (simp add: required_fields_def)
  have v: "\<forall>v. get ?data ''room'' = Some (JStr v) \<longrightarrow> (\<forall>c\<in>set v. is_white_space c)"
    by (simp add: is_white_space_def)
  have m: "filter (invalid_field ?data) (required_fields Join) = [''room'', ''sender'']"
    by (simp add: required_fields_def invalid_field_def trim_def is_white_space_def)
  from invalid_fields_rejected [OF t h f v, of any_text 0 0 init_state, THEN conjunct2, THEN conjunct2]
  have "on_message any_text 0 0 (Some ?data) init_state =
    Returns (init_state\<lparr>outbox := [(0, ErrorEv ''Missing or invalid fields: room, sender'')]\<rparr>)"
    unfolding m by (simp add: init_state_def init_conn_def)
  with t h f show ?thesis by blast
qed

section \<open>Events from a connection outside the room\<close>

text \<open>
  Claim C6. In a state reached from the initial one, take an inbound event whose type
  names the handler message, reaction or presence_request and whose required fields are
  all valid, sent on a connection that is not in the member set of the room it names.
  The listener runs the handler and returns the state it started in: no broadcast, no
  error event to the sender, and no change to rooms, typing sets or connections.
\<close>

theorem non_member_event_dropped:
  assumes "s = final (run nts evs init_state)"
    and "get data ''type'' = Some (JStr ty)" and "messageHandlers ty = Some h"
    and "h = Message \<or> h = Reaction \<or> h = PresenceRequest"
    and "filter (invalid_field data) (required_fields h) = []"
    and "ws \<notin> set (members s (str (get data ''room'')))"
  shows "on_message nts now ws (Some data) s = call_handler h now ws data s \<and>
         on_message nts now ws (Some data) s = Returns s"
proof -
  have run: "on_message nts now ws (Some data) s = call_handler h now ws data s"
    using assms(2,3) by (rule on_message_dispatch)
  have "room_inv s" using assms(1) by (simp add: room_inv_reachable)
  with assms(6) have nm: "str (get data ''room'') \<notin> set (ws_rooms (conns s ws))"
    by (simp add: room_inv_members(2))
  from assms(4) have "call_handler h now ws data s = Returns s"
  proof (elim disjE)
    assume "h = Message"
    with assms(5) nm show ?thesis
      by (simp add: required_fields_def handle_message_def requireFields_valid
          del: filter.simps)
  next
    assume "h = Reaction"
    with assms(5) nm show ?thesis
      by (simp add: required_fields_def handle_reaction_def requireFields_valid
          del: filter.simps)
  next
    assume "h = PresenceRequest"
    with assms(5) nm show ?thesis
      by (simp add: required_fields_def handle_presence_request_def requireFields_valid
          del: filter.simps)
  qed
  with run show ?thesis by simp
qed

text \<open>
  Connection 1 never joined \<^verbatim>\<open>general\<close>, where alice is: its message changes nothing.
\<close>

theorem non_member_event_dropped_witness:
  "alice_joined = final (run any_text [Frame 0 (Some (join_msg ''general'' ''alice'')) 0] init_state) \<and>
   get (chat_msg ''general'' ''hi'' JNull) ''type'' = Some (JStr ''message'') \<and>
   messageHandlers ''message'' = Some Message \<and>
   filter (invalid_field (chat_msg ''general'' ''hi'' JNull)) (required_fields Message) = [] \<and>
   1 \<notin> set (members alice_joined (str (get (chat_msg ''general'' ''hi'' JNull) ''room''))) \<and>
   on_message any_text 5 1 (Some (chat_msg ''general'' ''hi'' JNull)) alice_joined =
     Returns alice_joined"
proof -
  have a: "alice_joined =
      final (run any_text [Frame 0 (Some (join_msg ''general'' ''alice'')) 0] init_state)"
    by (simp add: on_message_join join_alice)
  have t: "get (chat_msg ''general'' ''hi'' JNull) ''type'' = Some (JStr ''message'')"
    by (simp add: chat_msg_def)
  have h: "messageHandlers ''message'' = Some Message"
    by (simp add: messageHandlers_def)
  have b: "filter (invalid_field (chat_msg ''general'' ''hi'' JNull)) (required_fields Message) = []"
    by (simp add: chat_msg_def required_fields_def invalid_field_def trim_def is_white_space_def)
  have c: "1 \<notin> set (members alice_joined (str (get (chat_msg ''general'' ''hi'' JNull) ''room'')))"
    by (simp add: chat_msg_def members_def alice_joined_def)
  have "on_message any_text 5 1 (Some (chat_msg ''general'' ''hi'' JNull)) alice_joined =
      Returns alice_joined"
    using non_member_event_dropped [OF a t h _ b c, of 5, THEN conjunct2] by simp
  with a t h b c show ?thesis by blast
qed

section \<open>Timestamps of messages\<close>

text \<open>
  Claim C4 as stated fails: a timestamp that the client supplies is replaced by the
  server's time when it is falsy. Alice, a member of \<^verbatim>\<open>general\<close>, sends a message with
  the timestamp 0 while the server's clock reads 1700; the broadcast carries 1700.
\<close>

theorem message_timestamp_counterexample:
  "get (chat_msg ''general'' ''hi'' (JNum (Finite 0))) ''timestamp'' = Some (JNum (Finite 0)) \<and>
   outbox (final (on_message any_text 1700 0
     (Some (chat_msg ''general'' ''hi'' (JNum (Finite 0)))) alice_joined)) =
   outbox alice_joined @
     [(0, MessageEv ''general'' (Some ''alice'') ''hi'' (JNum (Finite 1700)) JNull)]"
  by (simp add: scenario_defs chat_msg_def model_defs)

text \<open>
  Claim C4, amended. A message event with valid fields from a member of the named room
  is sent to every open member of the room, the sender among them, with one timestamp.
  It is the server's current time when the inbound event has no timestamp field or a
  falsy one (\<^verbatim>\<open>null\<close>, \<^verbatim>\<open>false\<close>, 0 or the empty string). When the client's timestamp is
  truthy, the frame carries it as \<^verbatim>\<open>JSON.stringify\<close> encodes it: unchanged when every
  number in it is finite, and with \<^verbatim>\<open>null\<close> in the place of each number that is not (a
  literal that overflows, such as \<^verbatim>\<open>1e999\<close>, decodes to infinity).
\<close>

theorem message_timestamp:
  assumes "get data ''type'' = Some (JStr ''message'')"
    and "filter (invalid_field data) [''room'', ''content''] = []"
    and "str (get data ''room'') \<in> set (ws_rooms (conns s ws))"
  shows "\<exists>ts. outbox (final (on_message nts now ws (Some data) s)) =
           outbox s @
             map (\<lambda>c. (c, MessageEv (str (get data ''room'')) (username (conns s ws))
                            (str (get data ''content'')) ts
                            (encoded (or_else (get data ''reply'') JNull))))
               (filter (\<lambda>c. readyState (conns s c) = OPEN)
                  (members s (str (get data ''room'')))) \<and>
         (get data ''timestamp'' = None \<longrightarrow> ts = date_now now) \<and>
         (\<forall>t. get data ''timestamp'' = Some t \<and> \<not> truthy t \<longrightarrow> ts = date_now now) \<and>
         (\<forall>t. get data ''timestamp'' = Some t \<and> truthy t \<longrightarrow>
              ts = encoded t \<and> (all_finite t \<longrightarrow> ts = t))"
proof -
  have "messageHandlers ''message'' = Some Message" by (simp add: messageHandlers_def)
  with assms(1) have "on_message nts now ws (Some data) s = call_handler Message now ws data s"
    by (rule on_message_dispatch)
  then have run: "final (on_message nts now ws (Some data) s) = handle_message now ws data s"
    by simp
  have now: "encoded (date_now now) = date_now now" by (simp add: date_now_def)
  show ?thesis
    unfolding run using assms(2,3)
    by (intro exI [of _ "encoded (or_else (get data ''timestamp'') (date_now now))"])
       (simp add: handle_message_def requireFields_valid outbox_broadcastToRoom or_else_def
          now encoded_all_finite del: filter.simps)
qed

text \<open>
  Alice's message with the timestamp 42 keeps it; with a timestamp that decoded to
  infinity, the frame carries \<^verbatim>\<open>null\<close>.
\<close>

theorem message_timestamp_witness:
  "get (chat_msg ''general'' ''hi'' (JNum (Finite 42))) ''type'' = Some (JStr ''message'') \<and>
   filter (invalid_field (chat_msg ''general'' ''hi'' (JNum (Finite 42)))) [''room'', ''content''] = [] \<and>
   str (get (chat_msg ''general'' ''hi'' (JNum (Finite 42))) ''room'') \<in> set (ws_rooms (conns alice_joined 0)) \<and>
   outbox (final (on_message any_text 1700 0
     (Some (chat_msg ''general'' ''hi'' (JNum (Finite 42)))) alice_joined)) =
     outbox alice_joined @
       [(0, MessageEv ''general'' (Some ''alice'') ''hi'' (JNum (Finite 42)) JNull)] \<and>
   outbox (final (on_message any_text 1700 0
     (Some (chat_msg ''general'' ''hi'' (JNum PosInfinity))) alice_joined)) =
     outbox alice_joined @
       [(0, MessageEv ''general'' (Some ''alice'') ''hi'' JNull JNull)]"
proof -
  have sent: "outbox (final (on_message any_text 1700 0
       (Some (chat_msg ''general'' ''hi'' t)) alice_joined)) =
     outbox alice_joined @ [(0, MessageEv ''general'' (Some ''alice'') ''hi'' (encoded t) JNull)]"
    if "truthy t" for t
  proof -
    let ?data = "chat_msg ''general'' ''hi'' t"
    have ty: "get ?data ''type'' = Some (JStr ''message'')" by (simp add: chat_msg_def)
    have v: "filter (invalid_field ?data) [''room'', ''content''] = []"
      by (simp add: chat_msg_def invalid_field_def trim_def is_white_space_def)
    have m: "str (get ?data ''room'') \<in> set (ws_rooms (conns alice_joined 0))"
      by (simp add: chat_msg_def scenario_defs)
    have ts: "get ?data ''timestamp'' = Some t" by (simp add: chat_msg_def)
    from message_timestamp [OF ty v m, of any_text 1700] ts that
    have "outbox (final (on_message any_text 1700 0 (Some ?data) alice_joined)) =
       outbox alice_joined @
         map (\<lambda>c. (c, MessageEv (str (get ?data ''room'')) (username (conns alice_joined 0))
                        (str (get ?data ''content'')) (encoded t)
                        (encoded (or_else (get ?data ''reply'') JNull))))
           (filter (\<lambda>c. readyState (conns alice_joined c) = OPEN)
              (members alice_joined (str (get ?data ''room''))))"
      by auto
    then show ?thesis
      by (simp add: chat_msg_def scenario_defs members_def or_else_def)
  qed
  have t: "get (chat_msg ''general'' ''hi'' (JNum (Finite 42))) ''type'' = Some (JStr ''message'')"
    by (simp add: chat_msg_def)
  have v: "filter (invalid_field (chat_msg ''general'' ''hi'' (JNum (Finite 42))))
      [''room'', ''content''] = []"
    by (simp add: chat_msg_def invalid_field_def trim_def is_white_space_def)
  have m: "str (get (chat_msg ''general'' ''hi'' (JNum (Finite 42))) ''room'')
      \<in> set (ws_rooms (conns alice_joined 0))"
    by (simp add: chat_msg_def scenario_defs)
  from sent [of "JNum (Finite 42)"] sent [of "JNum PosInfinity"] t v m show ?thesis
    by simp
qed

section \<open>The router\<close>

lemma emits_only_refl [simp]: "emits_only Q s s"
  by (simp add: emits_only_def)

lemma emits_only_trans: "emits_only Q s s1 \<Longrightarrow> emits_only Q s1 s2 \<Longrightarrow> emits_only Q s s2"
  by (auto simp: emits_only_def)

lemma emits_only_cong: "outbox s0 = outbox s \<Longrightarrow> emits_only Q s s' \<Longrightarrow> emits_only Q s0 s'"
  by (simp add: emits_only_def)

lemma emits_only_send: "Q (JSON_stringify p) \<Longrightarrow> emits_only Q s (send ws p s)"
  by (simp add: emits_only_def send_def)

lemma emits_only_broadcastToRoom:
  "Q (JSON_stringify p) \<Longrightarrow> emits_only Q s (broadcastToRoom r p x s)"
  by (simp add: emits_only_def outbox_broadcastToRoom list_all_iff)

lemma emits_only_broadcastPresence:
  "(\<And>us. Q (PresenceEv r us)) \<Longrightarrow> emits_only Q s (broadcastPresence r s)"
  by (simp add: broadcastPresence_def emits_only_broadcastToRoom split: option.splits)

text \<open>
  The text \<^verbatim>\<open>Invalid JSON\<close> starts with another letter than the two other error texts.
\<close>

lemma not_invalid_json_simps [simp]:
  "not_invalid_json (SystemEv a)"
  "not_invalid_json (UserJoined r u)"
  "not_invalid_json (UserLeft r u)"
  "not_invalid_json (PresenceEv r us)"
  "not_invalid_json (TypingEv r us)"
  "not_invalid_json (MessageEv r u c t y)"
  "not_invalid_json (ReactionEv r u g e t)"
  "not_invalid_json (ErrorEv (CHR ''M'' # x))"
  "not_invalid_json (ErrorEv (CHR ''U'' # x))"
  by (simp_all add: not_invalid_json_def)

lemma not_invalid_json_stringify [simp]:
  "not_invalid_json (JSON_stringify p) = not_invalid_json p"
  by (cases p) (simp_all add: not_invalid_json_def)

lemma emits_requireFields:
  "requireFields ws data fs s = (b, s1) \<Longrightarrow> emits_only not_invalid_json s s1"
  by (auto simp: requireFields_def Let_def emits_only_send split: if_splits)

lemma emits_joinRoom: "emits_only not_invalid_json s (joinRoom ws room s)"
proof -
  let ?s1 = "s\<lparr>rooms := (rooms s)(room \<mapsto> set_add ws (members s room))\<rparr>"
  let ?s2 = "?s1\<lparr>conns := (conns ?s1)
                (ws := (conns ?s1 ws)\<lparr>ws_rooms := set_add room (ws_rooms (conns ?s1 ws))\<rparr>)\<rparr>"
  let ?s3 = "broadcastToRoom room (UserJoined room (username (conns ?s2 ws))) (Some ws) ?s2"
  let ?s4 = "send ws (SystemEv (''Joined room: '' @ room)) ?s3"
  have a: "emits_only not_invalid_json ?s2 ?s3" by (simp add: emits_only_broadcastToRoom)
  have b: "emits_only not_invalid_json ?s3 ?s4" by (simp add: emits_only_send)
  have c: "emits_only not_invalid_json ?s4 (broadcastPresence room ?s4)"
    by (simp add: emits_only_broadcastPresence)
  have "emits_only not_invalid_json ?s2 (broadcastPresence room ?s4)"
    using a b c by (blast intro: emits_only_trans)
  then have "emits_only not_invalid_json s (broadcastPresence room ?s4)"
    by (rule emits_only_cong [rotated]) simp
  then show ?thesis by (simp add: joinRoom_def Let_def)
qed

lemma emits_announce_left: "emits_only not_invalid_json s (announce_left ws room s)"
proof -
  let ?s1 = "broadcastToRoom room (UserLeft room (username (conns s ws))) (Some ws) s"
  let ?s2 = "send ws (SystemEv (''Left room: '' @ room)) ?s1"
  have a: "emits_only not_invalid_json s ?s1" by (simp add: emits_only_broadcastToRoom)
  have b: "emits_only not_invalid_json ?s1 ?s2" by (simp add: emits_only_send)
  have c: "emits_only not_invalid_json ?s2 (broadcastPresence room ?s2)"
    by (simp add: emits_only_broadcastPresence)
  show ?thesis using a b c by (auto simp: announce_left_def Let_def intro: emits_only_trans)
qed

lemma emits_leaveRoom: "emits_only not_invalid_json s (final (leaveRoom ws room s))"
proof -
  let ?s1 = "remove_member ws room s"
  have base: "\<And>s'. emits_only not_invalid_json ?s1 s' \<Longrightarrow> emits_only not_invalid_json s s'"
    by (simp add: emits_only_def)
  show ?thesis
  proof (cases "lookup (typingUsers ?s1) room")
    case (Own t)
    let ?t = "delete_user (username (conns ?s1 ws)) t"
    show ?thesis
    proof (cases "?t = []")
      case True
      have "emits_only not_invalid_json (?s1\<lparr>typingUsers := (typingUsers ?s1)(room := None)\<rparr>)
              (announce_left ws room (?s1\<lparr>typingUsers := (typingUsers ?s1)(room := None)\<rparr>))"
        by (rule emits_announce_left)
      then have "emits_only not_invalid_json s
              (announce_left ws room (?s1\<lparr>typingUsers := (typingUsers ?s1)(room := None)\<rparr>))"
        by (rule emits_only_cong [rotated]) simp
      with Own True show ?thesis by (simp add: leaveRoom_def Let_def)
    next
      case False
      let ?s2 = "?s1\<lparr>typingUsers := (typingUsers ?s1)(room \<mapsto> ?t)\<rparr>"
      let ?s3 = "broadcastToRoom room (TypingEv room ?t) None ?s2"
      have a: "emits_only not_invalid_json ?s2 ?s3" by (simp add: emits_only_broadcastToRoom)
      have b: "emits_only not_invalid_json ?s3 (announce_left ws room ?s3)"
        by (rule emits_announce_left)
      have "emits_only not_invalid_json ?s2 (announce_left ws room ?s3)"
        using a b by (rule emits_only_trans)
      then have "emits_only not_invalid_json s (announce_left ws room ?s3)"
        by (rule emits_only_cong [rotated]) simp
      with Own False show ?thesis by (simp add: leaveRoom_def Let_def)
    qed
  next
    case (Inherited k)
    then show ?thesis by (simp add: leaveRoom_def Let_def base)
  next
    case Undefined
    then show ?thesis by (simp add: leaveRoom_def Let_def base emits_announce_left)
  qed
qed

lemma emits_handle_join: "emits_only not_invalid_json s (handle_join ws data s)"
proof (cases "requireFields ws data [''room'', ''sender''] s")
  case (Pair b s1)
  then have a: "emits_only not_invalid_json s s1" by (rule emits_requireFields)
  show ?thesis
  proof (cases b)
    case True
    let ?s2 = "s1\<lparr>conns := (conns s1)
                  (ws := (conns s1 ws)\<lparr>username := Some (str (get data ''sender''))\<rparr>)\<rparr>"
    have "emits_only not_invalid_json ?s2 (joinRoom ws (str (get data ''room'')) ?s2)"
      by (rule emits_joinRoom)
    then have "emits_only not_invalid_json s1 (joinRoom ws (str (get data ''room'')) ?s2)"
      by (rule emits_only_cong [rotated]) simp
    with a have "emits_only not_invalid_json s (joinRoom ws (str (get data ''room'')) ?s2)"
      by (rule emits_only_trans)
    with Pair True show ?thesis by (simp add: handle_join_def)
  next
    case False
    with Pair a show ?thesis by (simp add: handle_join_def)
  qed
qed

lemma emits_handle_leave: "emits_only not_invalid_json s (final (handle_leave ws data s))"
proof (cases "requireFields ws data [''room''] s")
  case (Pair b s1)
  then have a: "emits_only not_invalid_json s s1" by (rule emits_requireFields)
  have "emits_only not_invalid_json s1 (final (leaveRoom ws (str (get data ''room'')) s1))"
    by (rule emits_leaveRoom)
  with a have "emits_only not_invalid_json s (final (leaveRoom ws (str (get data ''room'')) s1))"
    by (rule emits_only_trans)
  with Pair a show ?thesis by (cases b) (simp_all add: handle_leave_def)
qed

lemma emits_handle_message: "emits_only not_invalid_json s (handle_message now ws data s)"
proof (cases "requireFields ws data [''room'', ''content''] s")
  case (Pair b s1)
  then have a: "emits_only not_invalid_json s s1" by (rule emits_requireFields)
  have "emits_only not_invalid_json s (broadcastToRoom (str (get data ''room'')) p None s1)"
    if "not_invalid_json p" for p
    using emits_only_trans [OF a emits_only_broadcastToRoom] that by simp
  with Pair a show ?thesis by (cases b) (simp_all add: handle_message_def)
qed

lemma emits_handle_reaction: "emits_only not_invalid_json s (handle_reaction now ws data s)"
proof (cases "requireFields ws data [''room'', ''target'', ''emoji''] s")
  case (Pair b s1)
  then have a: "emits_only not_invalid_json s s1" by (rule emits_requireFields)
  have "emits_only not_invalid_json s (broadcastToRoom (str (get data ''room'')) p None s1)"
    if "not_invalid_json p" for p
    using emits_only_trans [OF a emits_only_broadcastToRoom] that by simp
  with Pair a show ?thesis by (cases b) (simp_all add: handle_reaction_def)
qed

lemma emits_handle_presence_request:
  "emits_only not_invalid_json s (handle_presence_request ws data s)"
proof (cases "requireFields ws data [''room''] s")
  case (Pair b s1)
  then have a: "emits_only not_invalid_json s s1" by (rule emits_requireFields)
  have "emits_only not_invalid_json s1 (broadcastPresence (str (get data ''room'')) s1)"
    by (simp add: emits_only_broadcastPresence)
  with a have "emits_only not_invalid_json s (broadcastPresence (str (get data ''room'')) s1)"
    by (rule emits_only_trans)
  with Pair a show ?thesis by (cases b) (simp_all add: handle_presence_request_def)
qed

lemma emits_handle_typing: "emits_only not_invalid_json s (final (handle_typing ws data s))"
proof (cases "requireFields ws data [''room''] s")
  case (Pair b s1)
  then have a: "emits_only not_invalid_json s s1" by (rule emits_requireFields)
  have bc: "emits_only not_invalid_json s
      (broadcastToRoom (str (get data ''room'')) (TypingEv (str (get data ''room'')) t) None
         (s1\<lparr>typingUsers := x\<rparr>))" for t x
  proof -
    have "emits_only not_invalid_json (s1\<lparr>typingUsers := x\<rparr>)
      (broadcastToRoom (str (get data ''room'')) (TypingEv (str (get data ''room'')) t) None
         (s1\<lparr>typingUsers := x\<rparr>))"
      by (simp add: emits_only_broadcastToRoom)
    then have "emits_only not_invalid_json s1
      (broadcastToRoom (str (get data ''room'')) (TypingEv (str (get data ''room'')) t) None
         (s1\<lparr>typingUsers := x\<rparr>))"
      by (rule emits_only_cong [rotated]) simp
    with a show ?thesis by (rule emits_only_trans)
  qed
  from Pair a show ?thesis
    by (cases b)
       (simp_all add: handle_typing_def Let_def bc split: option.splits property.splits)
qed

lemma emits_call_handler:
  "emits_only not_invalid_json s (final (call_handler h now ws data s))"
  by (cases h)
     (simp_all add: emits_handle_join emits_handle_leave emits_handle_message
        emits_handle_reaction emits_handle_presence_request emits_handle_typing)

lemma falsy_iff:
  "(\<not> truthy (parseJSON msg)) =
     (msg = None \<or> msg = Some JNull \<or> msg = Some (JBool False) \<or>
      msg = Some (JNum (Finite 0)) \<or> msg = Some (JStr []))"
proof (cases msg)
  case None
  then show ?thesis by (simp add: parseJSON_def)
next
  case (Some v)
  then show ?thesis by (cases v) (auto simp: parseJSON_def)
qed

text \<open>
  Claim C10. The outcome of \<^verbatim>\<open>parseJSON\<close> is falsy exactly when decoding failed or the
  frame decoded to \<^verbatim>\<open>null\<close>, \<^verbatim>\<open>false\<close>, 0 or the empty string. In each of these cases the
  router does one thing, the reply \<^verbatim>\<open>Invalid JSON\<close> to the sender (sent when its
  connection is open), and returns. When the outcome is truthy, whatever the router
  sends, to anyone, is not that reply. So the reply marks a falsy decoded value, not a
  failed decoding.
\<close>

theorem invalid_json_iff_falsy:
  "(\<not> truthy (parseJSON msg)) =
     (msg = None \<or> msg = Some JNull \<or> msg = Some (JBool False) \<or>
      msg = Some (JNum (Finite 0)) \<or> msg = Some (JStr [])) \<and>
   (\<not> truthy (parseJSON msg) \<longrightarrow>
      on_message nts now ws msg s = Returns (send ws (ErrorEv ''Invalid JSON'') s)) \<and>
   (truthy (parseJSON msg) \<longrightarrow>
      (\<exists>ys. outbox (final (on_message nts now ws msg s)) = outbox s @ ys \<and>
            (\<forall>c. (c, ErrorEv ''Invalid JSON'') \<notin> set ys)))"
proof (intro conjI impI)
  show "(\<not> truthy (parseJSON msg)) =
     (msg = None \<or> msg = Some JNull \<or> msg = Some (JBool False) \<or>
      msg = Some (JNum (Finite 0)) \<or> msg = Some (JStr []))"
    by (rule falsy_iff)
next
  assume "\<not> truthy (parseJSON msg)"
  then show "on_message nts now ws msg s = Returns (send ws (ErrorEv ''Invalid JSON'') s)"
    by (simp add: on_message_def Let_def)
next
  assume t: "truthy (parseJSON msg)"
  have "emits_only not_invalid_json s (final (on_message nts now ws msg s))"
    using t
    by (simp add: on_message_def Let_def emits_call_handler call_inherited_def emits_only_send
        split: property.splits option.splits)
  then obtain ys where ys: "outbox (final (on_message nts now ws msg s)) = outbox s @ ys"
    and sent: "list_all (\<lambda>(c, p). not_invalid_json p) ys"
    by (auto simp: emits_only_def)
  from sent have "\<forall>c. (c, ErrorEv ''Invalid JSON'') \<notin> set ys"
    by (auto simp: list_all_iff not_invalid_json_def)
  with ys show "\<exists>ys. outbox (final (on_message nts now ws msg s)) = outbox s @ ys \<and>
            (\<forall>c. (c, ErrorEv ''Invalid JSON'') \<notin> set ys)"
    by blast
qed

text \<open>
  The frame \<^verbatim>\<open>0\<close> is valid JSON and is answered with \<^verbatim>\<open>Invalid JSON\<close>; the frame \<^verbatim>\<open>1\<close>
  is answered with the error for an unknown type.
\<close>

theorem invalid_json_iff_falsy_witness:
  "\<not> truthy (parseJSON (Some (JNum (Finite 0)))) \<and>
   on_message any_text 0 0 (Some (JNum (Finite 0))) init_state =
     Returns (init_state\<lparr>outbox := [(0, ErrorEv ''Invalid JSON'')]\<rparr>) \<and>
   truthy (parseJSON (Some (JNum (Finite 1)))) \<and>
   outbox (final (on_message any_text 0 0 (Some (JNum (Finite 1))) init_state)) =
     [(0, ErrorEv ''Unknown message type: undefined'')]"
  using invalid_json_iff_falsy [of "Some (JNum (Finite 0))" any_text 0 0 init_state]
    invalid_json_iff_falsy [of "Some (JNum (Finite 1))" any_text 0 0 init_state]
  by (simp add: model_defs)

text \<open>
  Claim C5 fails on the code: \<^verbatim>\<open>messageHandlers\<close> is a plain object, so a type that
  names a property of \<^verbatim>\<open>Object.prototype\<close> finds a value there and the branch that
  reports an unknown type is not taken. With the type \<^verbatim>\<open>constructor\<close> the listener calls
  \<^verbatim>\<open>Object(ws, data)\<close> and returns with nothing sent; with the type \<^verbatim>\<open>valueOf\<close> the call
  throws a TypeError. Neither sends the error event that names the unknown type.
\<close>

theorem inherited_type_no_error_reply:
  "on_message nts now ws (Some (JObj [(''type'', JStr ''constructor'')])) s = Returns s \<and>
   on_message nts now ws (Some (JObj [(''type'', JStr ''valueOf'')])) s = Throws TypeError s"
  by (simp add: on_message_def parseJSON_def lookup_def messageHandlers_def
      object_prototype_keys_def call_inherited_def)

section \<open>Typing sets\<close>

lemma typingUsers_leaveRoom:
  "typingUsers (final (leaveRoom ws room s)) =
     (case typingUsers s room of
        None \<Rightarrow> typingUsers s
      | Some t \<Rightarrow>
          if delete_user (username (conns s ws)) t = [] then (typingUsers s)(room := None)
          else (typingUsers s)(room \<mapsto> delete_user (username (conns s ws)) t))"
  by (simp add: leaveRoom_def Let_def lookup_def conns_remove_member split: option.splits)

text \<open>
  Claim C2 fails on the code: a typing set is keyed by display identity, a join
  overwrites the connection's display identity, and nothing then renames or removes the
  old identity in the typing sets of the rooms the connection is in. Connection 0 joins
  \<^verbatim>\<open>general\<close> as alice, reports typing there, and joins \<^verbatim>\<open>lobby\<close> as bob: the typing set of
  \<^verbatim>\<open>general\<close> still holds alice, while the only member of \<^verbatim>\<open>general\<close> is now called bob.
  When the connection then leaves \<^verbatim>\<open>general\<close>, \<^verbatim>\<open>leaveRoom\<close> deletes bob from the typing
  set, so alice stays in it although the room has no member left.
\<close>

theorem stale_typing_identity:
  "typingUsers (final (run nts
      [Frame 0 (Some (join_msg ''general'' ''alice'')) t1,
       Frame 0 (Some (typing_msg ''general'' True)) t2,
       Frame 0 (Some (join_msg ''lobby'' ''bob'')) t3] init_state)) ''general'' = Some [''alice''] \<and>
   members (final (run nts
      [Frame 0 (Some (join_msg ''general'' ''alice'')) t1,
       Frame 0 (Some (typing_msg ''general'' True)) t2,
       Frame 0 (Some (join_msg ''lobby'' ''bob'')) t3] init_state)) ''general'' = [0] \<and>
   username (conns (final (run nts
      [Frame 0 (Some (join_msg ''general'' ''alice'')) t1,
       Frame 0 (Some (typing_msg ''general'' True)) t2,
       Frame 0 (Some (join_msg ''lobby'' ''bob'')) t3] init_state)) 0) = Some ''bob'' \<and>
   typingUsers (final (run nts
      [Frame 0 (Some (join_msg ''general'' ''alice'')) t1,
       Frame 0 (Some (typing_msg ''general'' True)) t2,
       Frame 0 (Some (join_msg ''lobby'' ''bob'')) t3,
       Frame 0 (Some (leave_msg ''general'')) t4] init_state)) ''general'' = Some [''alice''] \<and>
   members (final (run nts
      [Frame 0 (Some (join_msg ''general'' ''alice'')) t1,
       Frame 0 (Some (typing_msg ''general'' True)) t2,
       Frame 0 (Some (join_msg ''lobby'' ''bob'')) t3,
       Frame 0 (Some (leave_msg ''general'')) t4] init_state)) ''general'' = []"
  by (simp add: on_message_join on_message_typing on_message_leave join_alice typing_alice
      rename_alice leave_after_rename)
     (simp add: scenario_defs members_def)

text \<open>
  Claim C3 as stated fails: the typing handler never deletes an entry, and it creates one
  also when it has nothing to add. Alice joins \<^verbatim>\<open>general\<close> and sends a typing event with
  \<^verbatim>\<open>typing: false\<close>; afterwards \<^verbatim>\<open>general\<close> has a typing set, and it is empty.
\<close>

theorem typing_entry_counterexample:
  "typingUsers (final (handle_typing 0 (typing_msg ''general'' False)
      (handle_join 0 (join_msg ''general'' ''alice'') init_state))) ''general'' = Some []"
  by (simp add: join_alice typing_off_alice)

text \<open>
  Claim C3, amended. A typing event that passes the handler's checks (a valid room, a
  sender with a display identity who is in the room) and returns leaves the room with a
  typing set, created from the empty set when there was none: the old set with the
  identity added when \<^verbatim>\<open>typing\<close> is truthy, and with it removed otherwise, so the set
  may be empty. No typing event removes an entry. A leave that returns changes the
  typing sets in one place only: when the room has a typing set, the leaver's identity
  is taken out of it and every other identity stays, in its order, and the entry is
  deleted when nothing remains. So after a leave the room has no typing set or one that
  is not empty, and the typing sets of other rooms are as they were.
\<close>

theorem typing_entry_lifecycle:
  "(filter (invalid_field data) [''room''] = [] \<and> username (conns s ws) = Some user \<and>
    user \<noteq> [] \<and> str (get data ''room'') \<in> set (ws_rooms (conns s ws)) \<and>
    handle_typing ws data s = Returns s' \<longrightarrow>
      typingUsers s' =
        (typingUsers s)(str (get data ''room'') \<mapsto>
          (if truthy_opt (get data ''typing'')
           then set_add user
                  (case typingUsers s (str (get data ''room'')) of None \<Rightarrow> [] | Some t \<Rightarrow> t)
           else set_delete user
                  (case typingUsers s (str (get data ''room'')) of None \<Rightarrow> [] | Some t \<Rightarrow> t)))) \<and>
   dom (typingUsers s) \<subseteq> dom (typingUsers (final (handle_typing ws data s))) \<and>
   (leaveRoom ws room s = Returns s'' \<longrightarrow>
      typingUsers s'' =
        (case typingUsers s room of
           None \<Rightarrow> typingUsers s
         | Some t \<Rightarrow>
             if filter (\<lambda>u. username (conns s ws) \<noteq> Some u) t = []
             then (typingUsers s)(room := None)
             else (typingUsers s)(room \<mapsto> filter (\<lambda>u. username (conns s ws) \<noteq> Some u) t)) \<and>
      typingUsers s'' room \<noteq> Some [] \<and>
      (\<forall>r. r \<noteq> room \<longrightarrow> typingUsers s'' r = typingUsers s r))"
proof (intro conjI impI allI)
  assume "filter (invalid_field data) [''room''] = [] \<and> username (conns s ws) = Some user \<and>
    user \<noteq> [] \<and> str (get data ''room'') \<in> set (ws_rooms (conns s ws)) \<and>
    handle_typing ws data s = Returns s'"
  then show "typingUsers s' =
        (typingUsers s)(str (get data ''room'') \<mapsto>
          (if truthy_opt (get data ''typing'')
           then set_add user
                  (case typingUsers s (str (get data ''room'')) of None \<Rightarrow> [] | Some t \<Rightarrow> t)
           else set_delete user
                  (case typingUsers s (str (get data ''room'')) of None \<Rightarrow> [] | Some t \<Rightarrow> t)))"
    by (auto simp: handle_typing_def requireFields_valid Let_def lookup_def
        split: option.splits if_splits simp del: filter.simps)
next
  show "dom (typingUsers s) \<subseteq> dom (typingUsers (final (handle_typing ws data s)))"
    by (cases "requireFields ws data [''room''] s")
       (auto simp: handle_typing_def Let_def requireFields_def send_def
          split: option.splits if_splits property.splits bool.splits)
next
  assume "leaveRoom ws room s = Returns s''"
  then have "s'' = final (leaveRoom ws room s)" by simp
  then show "typingUsers s'' =
        (case typingUsers s room of
           None \<Rightarrow> typingUsers s
         | Some t \<Rightarrow>
             if filter (\<lambda>u. username (conns s ws) \<noteq> Some u) t = []
             then (typingUsers s)(room := None)
             else (typingUsers s)(room \<mapsto> filter (\<lambda>u. username (conns s ws) \<noteq> Some u) t))"
    by (simp only: typingUsers_leaveRoom delete_user_filter)
next
  assume "leaveRoom ws room s = Returns s''"
  then have "s'' = final (leaveRoom ws room s)" by simp
  then show "typingUsers s'' room \<noteq> Some []"
    by (simp add: typingUsers_leaveRoom split: option.splits)
next
  fix r
  assume "leaveRoom ws room s = Returns s''" and "r \<noteq> room"
  then have "s'' = final (leaveRoom ws room s)" by simp
  with \<open>r \<noteq> room\<close> show "typingUsers s'' r = typingUsers s r"
    by (simp add: typingUsers_leaveRoom split: option.splits)
qed

text \<open>
  Alice's typing event with \<^verbatim>\<open>typing: false\<close> creates the empty typing set of
  \<^verbatim>\<open>general\<close>. When she leaves while bob and she are typing, bob stays in the set; when
  she leaves while she alone is typing, the set is deleted.
\<close>

theorem typing_entry_lifecycle_witness:
  "filter (invalid_field (typing_msg ''general'' False)) [''room''] = [] \<and>
   username (conns alice_joined 0) = Some ''alice'' \<and>
   str (get (typing_msg ''general'' False) ''room'') \<in> set (ws_rooms (conns alice_joined 0)) \<and>
   typingUsers (final (handle_typing 0 (typing_msg ''general'' False) alice_joined)) =
     [''general'' \<mapsto> []] \<and>
   leaveRoom 0 ''general'' both_typing = Returns (final (leaveRoom 0 ''general'' both_typing)) \<and>
   typingUsers (final (leaveRoom 0 ''general'' both_typing)) = [''general'' \<mapsto> [''bob'']] \<and>
   leaveRoom 0 ''general'' alice_typing = Returns (final (leaveRoom 0 ''general'' alice_typing)) \<and>
   typingUsers (final (leaveRoom 0 ''general'' alice_typing)) = Map.empty"
proof -
  have v: "filter (invalid_field (typing_msg ''general'' False)) [''room''] = []"
    by (simp add: typing_msg_def invalid_field_def trim_def is_white_space_def)
  have u: "username (conns alice_joined 0) = Some ''alice''"
    by (simp add: scenario_defs)
  have m: "str (get (typing_msg ''general'' False) ''room'') \<in> set (ws_rooms (conns alice_joined 0))"
    by (simp add: typing_msg_def scenario_defs)
  have r: "handle_typing 0 (typing_msg ''general'' False) alice_joined =
      Returns (final (handle_typing 0 (typing_msg ''general'' False) alice_joined))"
    by (simp add: typing_off_alice)
  from typing_entry_lifecycle [where data = "typing_msg ''general'' False"
      and s = alice_joined and ws = 0 and user = "''alice''"
      and s' = "final (handle_typing 0 (typing_msg ''general'' False) alice_joined)"] v u m r
  have a: "typingUsers (final (handle_typing 0 (typing_msg ''general'' False) alice_joined)) =
      [''general'' \<mapsto> []]"
    by (simp add: scenario_defs typing_msg_def set_delete_def)
  have g: "''general'' \<notin> set object_prototype_keys"
    by (simp add: object_prototype_keys_def)
  have lb: "leaveRoom 0 ''general'' both_typing = Returns (final (leaveRoom 0 ''general'' both_typing))"
    by (simp add: leaveRoom_def Let_def lookup_def both_typing_def remove_member_def)
  from typing_entry_lifecycle [where s = both_typing and ws = 0 and room = "''general''"
      and s'' = "final (leaveRoom 0 ''general'' both_typing)"] lb
  have b: "typingUsers (final (leaveRoom 0 ''general'' both_typing)) = [''general'' \<mapsto> [''bob'']]"
    by (simp add: both_typing_def alice_def)
  have la: "leaveRoom 0 ''general'' alice_typing = Returns (final (leaveRoom 0 ''general'' alice_typing))"
    by (simp add: leave_alice_typing)
  from typing_entry_lifecycle [where s = alice_typing and ws = 0 and room = "''general''"
      and s'' = "final (leaveRoom 0 ''general'' alice_typing)"] la
  have c: "typingUsers (final (leaveRoom 0 ''general'' alice_typing)) = Map.empty"
    by (simp add: scenario_defs)
  from v u m a lb b la c show ?thesis by blast
qed

section \<open>Leaving a room\<close>

lemma no_inherited_ownD:
  "no_inherited_own s \<Longrightarrow> k \<in> set object_prototype_keys \<Longrightarrow> typingUsers s k = None"
  by (simp add: no_inherited_own_def list_all_iff)

lemma no_inherited_ownI:
  "(\<And>k. k \<in> set object_prototype_keys \<Longrightarrow> typingUsers s k = None) \<Longrightarrow> no_inherited_own s"
  by (simp add: no_inherited_own_def list_all_iff)

lemma no_inherited_own_cong:
  "typingUsers s' = typingUsers s \<Longrightarrow> no_inherited_own s' = no_inherited_own s"
  by (simp add: no_inherited_own_def)

lemma no_inherited_own_init: "no_inherited_own init_state"
  by (simp add: no_inherited_own_def init_state_def list_all_iff)

lemma no_inherited_own_leaveRoom:
  assumes "no_inherited_own s"
  shows "no_inherited_own (final (leaveRoom ws room s))"
proof (rule no_inherited_ownI)
  fix k assume "k \<in> set object_prototype_keys"
  with assms have "typingUsers s k = None" by (rule no_inherited_ownD)
  then show "typingUsers (final (leaveRoom ws room s)) k = None"
    by (auto simp: typingUsers_leaveRoom split: option.splits)
qed

text \<open>
  The typing handler stores a set only under a name whose lookup did not end in
  \<^verbatim>\<open>Object.prototype\<close>.
\<close>

lemma typingUsers_handle_typing:
  "typingUsers (final (handle_typing ws data s)) k \<noteq> typingUsers s k \<Longrightarrow>
   k = str (get data ''room'') \<and> lookup (typingUsers s) k \<noteq> Inherited k"
  by (cases "requireFields ws data [''room''] s")
     (auto simp: handle_typing_def Let_def lookup_def dest!: requireFields_fields(2)
        split: option.splits if_splits property.splits bool.splits)

lemma no_inherited_own_handle_typing:
  assumes "no_inherited_own s"
  shows "no_inherited_own (final (handle_typing ws data s))"
proof (rule no_inherited_ownI)
  fix k assume k: "k \<in> set object_prototype_keys"
  with assms have none: "typingUsers s k = None" by (rule no_inherited_ownD)
  show "typingUsers (final (handle_typing ws data s)) k = None"
  proof (rule ccontr)
    assume "typingUsers (final (handle_typing ws data s)) k \<noteq> None"
    with none have "typingUsers (final (handle_typing ws data s)) k \<noteq> typingUsers s k"
      by simp
    then have "lookup (typingUsers s) k \<noteq> Inherited k"
      by (simp add: typingUsers_handle_typing)
    with none k show False by (simp add: lookup_def)
  qed
qed

lemma typingUsers_handle_join [simp]: "typingUsers (handle_join ws data s) = typingUsers s"
  by (cases "requireFields ws data [''room'', ''sender''] s")
     (auto simp: handle_join_def dest!: requireFields_fields(2) split: bool.splits)

lemma typingUsers_handle_message [simp]:
  "typingUsers (handle_message now ws data s) = typingUsers s"
  by (cases "requireFields ws data [''room'', ''content''] s")
     (auto simp: handle_message_def dest!: requireFields_fields(2) split: bool.splits)

lemma typingUsers_handle_reaction [simp]:
  "typingUsers (handle_reaction now ws data s) = typingUsers s"
  by (cases "requireFields ws data [''room'', ''target'', ''emoji''] s")
     (auto simp: handle_reaction_def dest!: requireFields_fields(2) split: bool.splits)

lemma typingUsers_handle_presence_request [simp]:
  "typingUsers (handle_presence_request ws data s) = typingUsers s"
  by (cases "requireFields ws data [''room''] s")
     (auto simp: handle_presence_request_def dest!: requireFields_fields(2) split: bool.splits)

lemma no_inherited_own_handle_leave:
  "no_inherited_own s \<Longrightarrow> no_inherited_own (final (handle_leave ws data s))"
  by (cases "requireFields ws data [''room''] s")
     (auto simp: handle_leave_def no_inherited_own_leaveRoom
        dest!: requireFields_fields(2) no_inherited_own_cong split: bool.splits)

lemma no_inherited_own_call_handler:
  "no_inherited_own s \<Longrightarrow> no_inherited_own (final (call_handler h now ws data s))"
  by (cases h)
     (simp_all add: no_inherited_own_handle_leave no_inherited_own_handle_typing
        no_inherited_own_cong [of "handle_join ws data s" s]
        no_inherited_own_cong [of "handle_message now ws data s" s]
        no_inherited_own_cong [of "handle_reaction now ws data s" s]
        no_inherited_own_cong [of "handle_presence_request ws data s" s])

lemma no_inherited_own_on_message:
  "no_inherited_own s \<Longrightarrow> no_inherited_own (final (on_message nts now ws msg s))"
  by (simp add: on_message_def Let_def no_inherited_own_call_handler call_inherited_def
        no_inherited_own_cong [of "send ws p s" s for p]
      split: property.splits option.splits)

lemma no_inherited_own_leave_all:
  "no_inherited_own s \<Longrightarrow> no_inherited_own (final (leave_all ws rs s))"
proof (induction rs arbitrary: s)
  case Nil
  then show ?case by simp
next
  case (Cons r rs)
  from Cons.prems have inv: "no_inherited_own (final (leaveRoom ws r s))"
    by (rule no_inherited_own_leaveRoom)
  show ?case
  proof (cases "leaveRoom ws r s")
    case (Returns s1)
    with inv have "no_inherited_own s1" by simp
    then have "no_inherited_own (final (leave_all ws rs s1))" by (rule Cons.IH)
    with Returns show ?thesis by simp
  next
    case (Throws e s1)
    with inv show ?thesis by simp
  qed
qed

lemma no_inherited_own_step:
  "no_inherited_own s \<Longrightarrow> no_inherited_own (final (step nts e s))"
proof (cases e)
  case (Frame ws msg now)
  assume "no_inherited_own s"
  with Frame show ?thesis by (simp add: no_inherited_own_on_message)
next
  case (Close ws)
  assume "no_inherited_own s"
  with Close show ?thesis by (simp add: on_close_def no_inherited_own_leave_all)
next
  case (Transport ws rs)
  assume "no_inherited_own s"
  with Transport show ?thesis by (simp add: no_inherited_own_def)
qed

lemma no_inherited_own_run:
  "no_inherited_own s \<Longrightarrow> no_inherited_own (final (run nts es s))"
proof (induction es arbitrary: s)
  case Nil
  then show ?case by simp
next
  case (Cons e es)
  from Cons.prems have inv: "no_inherited_own (final (step nts e s))"
    by (rule no_inherited_own_step)
  show ?case
  proof (cases "step nts e s")
    case (Returns s1)
    with inv have "no_inherited_own s1" by simp
    then have "no_inherited_own (final (run nts es s1))" by (rule Cons.IH)
    with Returns show ?thesis by simp
  next
    case (Throws err s1)
    with inv show ?thesis by simp
  qed
qed

lemma leaveRoom_inherited:
  "typingUsers s room = None \<Longrightarrow> room \<in> set object_prototype_keys \<Longrightarrow>
   leaveRoom ws room s = Throws TypeError (remove_member ws room s)"
  by (simp add: leaveRoom_def Let_def lookup_def)

text \<open>
  Claim C8 fails on the code: \<^verbatim>\<open>typingUsers\<close> is a plain object, so for a room named
  like a property of \<^verbatim>\<open>Object.prototype\<close> the test \<^verbatim>\<open>if (typingUsers[room])\<close> finds the
  inherited value, and the call of its missing \<^verbatim>\<open>delete\<close> method throws. In every state
  reached from the initial one, \<^verbatim>\<open>leaveRoom\<close> for the room \<^verbatim>\<open>constructor\<close> throws a
  TypeError after it has removed the connection from the room and before it has sent
  anything: no notification that the user left, no confirmation to the leaver and no
  presence list.
\<close>

theorem leave_constructor_throws:
  "leaveRoom ws ''constructor'' (final (run nts evs init_state)) =
     Throws TypeError (remove_member ws ''constructor'' (final (run nts evs init_state))) \<and>
   outbox (remove_member ws ''constructor'' (final (run nts evs init_state))) =
     outbox (final (run nts evs init_state))"
proof -
  have "no_inherited_own (final (run nts evs init_state))"
    using no_inherited_own_init by (rule no_inherited_own_run)
  then have "typingUsers (final (run nts evs init_state)) ''constructor'' = None"
    by (rule no_inherited_ownD) (simp add: object_prototype_keys_def)
  then show ?thesis
    by (simp add: leaveRoom_inherited object_prototype_keys_def)
qed

lemma leaveRoom_returns:
  "room \<notin> set object_prototype_keys \<Longrightarrow>
   leaveRoom ws room s = Returns (final (leaveRoom ws room s))"
  by (simp add: leaveRoom_def Let_def lookup_def split: option.splits)

lemma rooms_remove_member_idem:
  "rooms (remove_member ws room (remove_member ws room s)) = rooms (remove_member ws room s)"
  by (cases "rooms s room") (auto simp: rooms_remove_member)

lemma rooms_remove_member_cong:
  "rooms s' = rooms s \<Longrightarrow> rooms (remove_member ws room s') = rooms (remove_member ws room s)"
  by (simp add: rooms_remove_member split: option.splits)

lemma conns_remove_member_cong:
  "conns s' = conns s \<Longrightarrow> conns (remove_member ws room s') = conns (remove_member ws room s)"
  by (simp add: conns_remove_member)

lemma conns_remove_member_idem:
  "conns (remove_member ws room (remove_member ws room s)) = conns (remove_member ws room s)"
  by (simp add: conns_remove_member)

text \<open>A second leave finds nothing left to remove.\<close>

lemma leaveRoom_twice:
  "rooms (final (leaveRoom ws room (final (leaveRoom ws room s)))) =
     rooms (final (leaveRoom ws room s))"
  "conns (final (leaveRoom ws room (final (leaveRoom ws room s)))) =
     conns (final (leaveRoom ws room s))"
  "typingUsers (final (leaveRoom ws room (final (leaveRoom ws room s)))) =
     typingUsers (final (leaveRoom ws room s))"
proof -
  let ?s1 = "final (leaveRoom ws room s)"
  have r: "rooms ?s1 = rooms (remove_member ws room s)" by simp
  have c: "conns ?s1 = conns (remove_member ws room s)" by simp
  show "rooms (final (leaveRoom ws room ?s1)) = rooms ?s1"
    using rooms_remove_member_cong [OF r] by (simp add: rooms_remove_member_idem)
  show "conns (final (leaveRoom ws room ?s1)) = conns ?s1"
    using conns_remove_member_cong [OF c] by (simp add: conns_remove_member_idem)
  have u: "username (conns ?s1 ws) = username (conns s ws)" by simp
  show "typingUsers (final (leaveRoom ws room ?s1)) = typingUsers ?s1"
    unfolding typingUsers_leaveRoom [of ws room ?s1] u
    by (cases "typingUsers s room") (auto simp: typingUsers_leaveRoom)
qed

lemma remove_member_non_member:
  assumes "room_inv s" and "ws \<notin> set (members s room)"
  shows "rooms (remove_member ws room s) = rooms s"
    and "conns (remove_member ws room s) = conns s"
proof -
  from assms have nr: "room \<notin> set (ws_rooms (conns s ws))"
    by (simp add: room_inv_members(2))
  show "rooms (remove_member ws room s) = rooms s"
  proof (cases "rooms s room")
    case None
    then show ?thesis by (simp add: rooms_remove_member)
  next
    case (Some m)
    with assms(2) have "ws \<notin> set m" by (simp add: members_def)
    then have d: "set_delete ws m = m" by (rule set_delete_absent)
    from Some assms(1) have "m \<noteq> []" by (simp add: room_inv_def)
    with Some d show ?thesis by (auto simp: rooms_remove_member)
  qed
  from nr have "set_delete room (ws_rooms (conns s ws)) = ws_rooms (conns s ws)"
    by (rule set_delete_absent)
  then show "conns (remove_member ws room s) = conns s"
    by (simp add: conns_remove_member)
qed

text \<open>
  Claim C9 as stated fails: a leave by a connection that is not in the room still
  removes the connection's display identity from the room's typing set. Alice
  (connection 0) is typing in \<^verbatim>\<open>general\<close>; connection 1, which is in \<^verbatim>\<open>lobby\<close> only and
  also calls itself alice, sends a leave for \<^verbatim>\<open>general\<close>: the typing set of \<^verbatim>\<open>general\<close> is
  gone.
\<close>

theorem leave_without_membership_counterexample:
  "1 \<notin> set (members (handle_join 1 (join_msg ''lobby'' ''alice'') alice_typing) ''general'') \<and>
   typingUsers (handle_join 1 (join_msg ''lobby'' ''alice'') alice_typing) ''general'' =
     Some [''alice''] \<and>
   typingUsers (final (handle_leave 1 (leave_msg ''general'')
     (handle_join 1 (join_msg ''lobby'' ''alice'') alice_typing))) ''general'' = None"
  by (simp only: join_namesake leave_namesake) (simp add: scenario_defs members_def)

text \<open>
  Claim C9, amended. Let the room's name be none of the property names of
  \<^verbatim>\<open>Object.prototype\<close>, and the state be reached from the initial one. Then
  \<^verbatim>\<open>leaveRoom\<close> returns, and a second \<^verbatim>\<open>leaveRoom\<close> for the same connection and room
  returns too and leaves room directory, typing sets and connection records as the first
  left them. When the connection is not in the room's member set (the room may have no
  entry at all), the first leave changes neither the room directory nor any
  connection's record; of the typing sets it changes at most the room's own, from which
  it removes the connection's display identity, deleting the set when that empties it.
\<close>

theorem leave_without_membership:
  assumes "room \<notin> set object_prototype_keys"
    and "s = final (run nts evs init_state)"
  shows "\<exists>s1 s2. leaveRoom ws room s = Returns s1 \<and> leaveRoom ws room s1 = Returns s2 \<and>
           rooms s2 = rooms s1 \<and> typingUsers s2 = typingUsers s1 \<and> conns s2 = conns s1 \<and>
           (ws \<notin> set (members s room) \<longrightarrow>
              rooms s1 = rooms s \<and> conns s1 = conns s \<and>
              typingUsers s1 =
                (case typingUsers s room of
                   None \<Rightarrow> typingUsers s
                 | Some t \<Rightarrow>
                     if delete_user (username (conns s ws)) t = []
                     then (typingUsers s)(room := None)
                     else (typingUsers s)(room \<mapsto> delete_user (username (conns s ws)) t)))"
proof -
  let ?s1 = "final (leaveRoom ws room s)"
  let ?s2 = "final (leaveRoom ws room ?s1)"
  have inv: "room_inv s" using assms(2) by (simp add: room_inv_reachable)
  have a: "leaveRoom ws room s = Returns ?s1" using assms(1) by (rule leaveRoom_returns)
  have b: "leaveRoom ws room ?s1 = Returns ?s2" using assms(1) by (rule leaveRoom_returns)
  have c: "rooms ?s2 = rooms ?s1 \<and> typingUsers ?s2 = typingUsers ?s1 \<and> conns ?s2 = conns ?s1"
    by (simp only: leaveRoom_twice)
  have d: "ws \<notin> set (members s room) \<longrightarrow>
              rooms ?s1 = rooms s \<and> conns ?s1 = conns s \<and>
              typingUsers ?s1 =
                (case typingUsers s room of
                   None \<Rightarrow> typingUsers s
                 | Some t \<Rightarrow>
                     if delete_user (username (conns s ws)) t = []
                     then (typingUsers s)(room := None)
                     else (typingUsers s)(room \<mapsto> delete_user (username (conns s ws)) t))"
    using inv by (simp add: remove_member_non_member typingUsers_leaveRoom)
  from a b c d show ?thesis by blast
qed

text \<open>
  Connection 1 never joined: its leave for \<^verbatim>\<open>general\<close>, where alice is, returns and
  changes neither rooms nor typing sets nor connections.
\<close>

theorem leave_without_membership_witness:
  "''general'' \<notin> set object_prototype_keys \<and>
   alice_joined = final (run any_text [Frame 0 (Some (join_msg ''general'' ''alice'')) 0] init_state) \<and>
   1 \<notin> set (members alice_joined ''general'') \<and>
   leaveRoom 1 ''general'' alice_joined = Returns (final (leaveRoom 1 ''general'' alice_joined)) \<and>
   rooms (final (leaveRoom 1 ''general'' alice_joined)) = rooms alice_joined \<and>
   conns (final (leaveRoom 1 ''general'' alice_joined)) = conns alice_joined \<and>
   typingUsers (final (leaveRoom 1 ''general'' alice_joined)) = typingUsers alice_joined"
proof -
  have a: "''general'' \<notin> set object_prototype_keys"
    by (simp add: object_prototype_keys_def)
  have b: "alice_joined =
      final (run any_text [Frame 0 (Some (join_msg ''general'' ''alice'')) 0] init_state)"
    by (simp add: on_message_join join_alice)
  have c: "1 \<notin> set (members alice_joined ''general'')"
    by (simp add: members_def alice_joined_def)
  have d: "typingUsers alice_joined ''general'' = None"
    by (simp add: alice_joined_def)
  from leave_without_membership [OF a b, of 1] c d
  obtain s1 where ret: "leaveRoom 1 ''general'' alice_joined = Returns s1"
    and same: "rooms s1 = rooms alice_joined" "conns s1 = conns alice_joined"
      "typingUsers s1 = typingUsers alice_joined"
    by auto
  from ret have "final (leaveRoom 1 ''general'' alice_joined) = s1"
    by (simp only: final.simps)
  with ret same
  have "leaveRoom 1 ''general'' alice_joined = Returns (final (leaveRoom 1 ''general'' alice_joined)) \<and>
    rooms (final (leaveRoom 1 ''general'' alice_joined)) = rooms alice_joined \<and>
    conns (final (leaveRoom 1 ''general'' alice_joined)) = conns alice_joined \<and>
    typingUsers (final (leaveRoom 1 ''general'' alice_joined)) = typingUsers alice_joined"
    by (simp only: simp_thms)
  with a b c show ?thesis by blast
qed

section \<open>What a leave sends\<close>

lemma bob_joins_and_types:
  "handle_typing 1 (typing_msg ''general'' True)
     (handle_join 1 (join_msg ''general'' ''bob'') alice_typing) = Returns both_typing"
  by (simp add: both_typing_def scenario_defs join_msg_def typing_msg_def model_defs fun_upd_twist)

lemma presence_users_cong:
  "(\<And>c. username (conns s' c) = username (conns s c)) \<Longrightarrow>
   presence_users s' cs = presence_users s cs"
  by (simp add: presence_users_def)

lemma outbox_send:
  "outbox (send ws p s) =
     outbox s @ (if readyState (conns s ws) = OPEN then [(ws, JSON_stringify p)] else [])"
  by (simp add: send_def)

lemma outbox_broadcastPresence:
  "outbox (broadcastPresence room s) =
     outbox s @ map (\<lambda>c. (c, PresenceEv room (presence_users s (members s room))))
       (filter (\<lambda>c. readyState (conns s c) = OPEN) (members s room))"
  by (simp add: broadcastPresence_def outbox_broadcastToRoom members_def split: option.splits)

lemma members_cong: "rooms s' = rooms s \<Longrightarrow> members s' room = members s room"
  by (simp add: members_def)

lemma readyState_remove_member [simp]:
  "readyState (conns (remove_member ws room s) c) = readyState (conns s c)"
  by (simp add: conns_remove_member)

lemma members_remove_member:
  "members (remove_member ws room s) room = set_delete ws (members s room)"
  by (simp add: members_def rooms_remove_member set_delete_def split: option.splits)

lemma members_after_send [simp]:
  "members (send ws p s) r = members s r"
  "members (broadcastToRoom r' p x s) r = members s r"
  "members (s\<lparr>typingUsers := y\<rparr>) r = members s r"
  by (simp_all add: members_def)

lemma presence_users_after_send [simp]:
  "presence_users (send ws p s) cs = presence_users s cs"
  "presence_users (broadcastToRoom r' p x s) cs = presence_users s cs"
  "presence_users (s\<lparr>typingUsers := y\<rparr>) cs = presence_users s cs"
  by (simp_all add: presence_users_def)

lemma outbox_announce_left:
  "outbox (announce_left ws room s) =
     outbox s @
     map (\<lambda>c. (c, UserLeft room (username (conns s ws))))
       (filter (\<lambda>c. readyState (conns s c) = OPEN \<and> c \<noteq> ws) (members s room)) @
     (if readyState (conns s ws) = OPEN then [(ws, SystemEv (''Left room: '' @ room))] else []) @
     map (\<lambda>c. (c, PresenceEv room (presence_users s (members s room))))
       (filter (\<lambda>c. readyState (conns s c) = OPEN) (members s room))"
  by (simp add: announce_left_def Let_def outbox_broadcastPresence outbox_send
      outbox_broadcastToRoom)

text \<open>
  For a room whose name is no property name of \<^verbatim>\<open>Object.prototype\<close>, \<^verbatim>\<open>leaveRoom\<close>
  returns, and what it sends is, in this order: the room's typing list without the
  leaver's identity to the open remaining members, when the room has a typing set that
  stays non-empty; the notification that the user left to the open remaining members;
  the confirmation to the leaver, when its connection is open; and the presence list of
  the remaining members to the open remaining members. A room without remaining members
  has no entry any more and receives nothing.
\<close>

theorem leave_notifies_in_order:
  assumes "room \<notin> set object_prototype_keys"
  shows "\<exists>s'. leaveRoom ws room s = Returns s' \<and>
     outbox s' =
       outbox s @
       (case typingUsers s room of
          None \<Rightarrow> []
        | Some t \<Rightarrow>
            if delete_user (username (conns s ws)) t = [] then []
            else map (\<lambda>c. (c, TypingEv room (delete_user (username (conns s ws)) t)))
                   (filter (\<lambda>c. readyState (conns s c) = OPEN)
                      (set_delete ws (members s room)))) @
       map (\<lambda>c. (c, UserLeft room (username (conns s ws))))
         (filter (\<lambda>c. readyState (conns s c) = OPEN \<and> c \<noteq> ws)
            (set_delete ws (members s room))) @
       (if readyState (conns s ws) = OPEN then [(ws, SystemEv (''Left room: '' @ room))]
        else []) @
       map (\<lambda>c. (c, PresenceEv room (presence_users s (set_delete ws (members s room)))))
         (filter (\<lambda>c. readyState (conns s c) = OPEN) (set_delete ws (members s room)))"
proof -
  let ?s1 = "remove_member ws room s"
  have pu: "presence_users s' cs = presence_users s cs"
    if "conns s' = conns ?s1" for s' cs
    using that by (intro presence_users_cong) simp
  have mem: "members s' room = set_delete ws (members s room)"
    if "rooms s' = rooms ?s1" for s'
    using that members_cong [of s' ?s1 room] by (simp add: members_remove_member)
  show ?thesis
  proof (cases "typingUsers s room")
    case None
    with assms have "leaveRoom ws room s = Returns (announce_left ws room ?s1)"
      by (simp add: leaveRoom_def Let_def lookup_def)
    with None show ?thesis
      by (simp add: outbox_announce_left pu mem)
  next
    case (Some t)
    show ?thesis
    proof (cases "delete_user (username (conns s ws)) t = []")
      case True
      with Some have "leaveRoom ws room s =
        Returns (announce_left ws room (?s1\<lparr>typingUsers := (typingUsers ?s1)(room := None)\<rparr>))"
        by (simp add: leaveRoom_def Let_def lookup_def)
      with Some True show ?thesis
        by (simp add: outbox_announce_left pu mem)
    next
      case False
      with Some have "leaveRoom ws room s =
        Returns (announce_left ws room
          (broadcastToRoom room (TypingEv room (delete_user (username (conns s ws)) t)) None
             (?s1\<lparr>typingUsers :=
                (typingUsers ?s1)(room \<mapsto> delete_user (username (conns s ws)) t)\<rparr>)))"
        by (simp add: leaveRoom_def Let_def lookup_def)
      with Some False show ?thesis
        by (simp add: outbox_announce_left outbox_broadcastToRoom pu mem)
    qed
  qed
qed

text \<open>
  Alice leaves \<^verbatim>\<open>general\<close> while bob and she are typing: bob receives the typing list,
  the notification and, after alice's confirmation, the presence list.
\<close>

theorem leave_notifies_in_order_witness:
  "''general'' \<notin> set object_prototype_keys \<and>
   outbox (final (leaveRoom 0 ''general'' both_typing)) =
     outbox both_typing @
       [(1, TypingEv ''general'' [''bob'']), (1, UserLeft ''general'' (Some ''alice'')),
        (0, SystemEv ''Left room: general''), (1, PresenceEv ''general'' [''bob''])]"
  using leave_notifies_in_order [of "''general''" 0 both_typing]
  by (auto simp: object_prototype_keys_def both_typing_def alice_def members_def set_delete_def
      delete_user_def presence_users_def init_conn_def)

section \<open>Types without a handler\<close>

text \<open>
  A type whose conversion to a property key succeeds and gives neither a key of
  \<^verbatim>\<open>messageHandlers\<close> nor a property name of \<^verbatim>\<open>Object.prototype\<close> is answered with the
  error event that names it, and nothing else happens.
\<close>

theorem unknown_type_reported:
  assumes "truthy data"
    and "to_string_opt nts (get data ''type'') = Some key"
    and "lookup messageHandlers key = Undefined"
  shows "on_message nts now ws (Some data) s =
     Returns (send ws (ErrorEv (''Unknown message type: '' @ key)) s)"
  using assms by (simp add: on_message_def parseJSON_def)

text \<open>The type \<^verbatim>\<open>shout\<close> is reported as unknown.\<close>

theorem unknown_type_reported_witness:
  "truthy (JObj [(''type'', JStr ''shout'')]) \<and>
   to_string_opt any_text (get (JObj [(''type'', JStr ''shout'')]) ''type'') = Some ''shout'' \<and>
   lookup messageHandlers ''shout'' = Undefined \<and>
   on_message any_text 0 0 (Some (JObj [(''type'', JStr ''shout'')])) init_state =
     Returns (init_state\<lparr>outbox := [(0, ErrorEv ''Unknown message type: shout'')]\<rparr>)"
  using unknown_type_reported [of "JObj [(''type'', JStr ''shout'')]" any_text "''shout''" 0 0 init_state]
  by (simp add: lookup_def messageHandlers_def object_prototype_keys_def send_def
      init_state_def init_conn_def)

section \<open>Typing sets when identities are kept\<close>


lemma typing_inv_cong:
  "typingUsers s' = typingUsers s \<Longrightarrow> rooms s' = rooms s \<Longrightarrow>
   (\<And>c. username (conns s' c) = username (conns s c)) \<Longrightarrow> typing_inv s' = typing_inv s"
  by (simp add: typing_inv_def members_def)

lemma typing_inv_init: "typing_inv init_state"
  by (simp add: typing_inv_def init_state_def)

lemma username_joinRoom [simp]:
  "username (conns (joinRoom ws room s) c) = username (conns s c)"
  by (simp add: conns_joinRoom)

lemma members_joinRoom:
  "members (joinRoom ws room s) r = (if r = room then set_add ws (members s room) else members s r)"
  by (simp add: members_def rooms_joinRoom)

lemma members_joinRoom_mono: "c \<in> set (members s r) \<Longrightarrow> c \<in> set (members (joinRoom ws room s) r)"
  by (cases "r = room") (simp_all add: members_joinRoom)

lemma typing_inv_joinRoom: "typing_inv s \<Longrightarrow> typing_inv (joinRoom ws room s)"
  unfolding typing_inv_def
  by (simp only: typingUsers_joinRoom username_joinRoom) (blast intro: members_joinRoom_mono)

lemma typing_inv_set_username:
  assumes "typing_inv s"
    and "username (conns s ws) = None \<or> username (conns s ws) = Some n"
  shows "typing_inv (s\<lparr>conns := (conns s)(ws := (conns s ws)\<lparr>username := Some n\<rparr>)\<rparr>)"
  unfolding typing_inv_def
proof (intro allI impI)
  fix r t u
  let ?s' = "s\<lparr>conns := (conns s)(ws := (conns s ws)\<lparr>username := Some n\<rparr>)\<rparr>"
  assume "typingUsers ?s' r = Some t" and "u \<in> set t"
  then have "typingUsers s r = Some t" by simp
  with assms(1) \<open>u \<in> set t\<close> obtain c where c: "c \<in> set (members s r)"
    and name: "username (conns s c) = Some u"
    unfolding typing_inv_def by blast
  from name assms(2) have "username (conns ?s' c) = Some u" by auto
  moreover from c have "c \<in> set (members ?s' r)" by (simp add: members_def)
  ultimately show "\<exists>c. c \<in> set (members ?s' r) \<and> username (conns ?s' c) = Some u"
    by blast
qed

lemma members_leaveRoom_other:
  "r \<noteq> room \<Longrightarrow> members (final (leaveRoom ws room s)) r = members s r"
  by (simp add: members_def rooms_remove_member split: option.splits)

lemma username_leaveRoom [simp]:
  "username (conns (final (leaveRoom ws room s)) c) = username (conns s c)"
  by simp

lemma set_delete_user:
  "u' \<in> set (delete_user u t) \<Longrightarrow> u' \<in> set t \<and> u \<noteq> Some u'"
  by (auto simp: delete_user_def split: option.splits)

lemma typing_inv_leaveRoom:
  assumes "typing_inv s"
  shows "typing_inv (final (leaveRoom ws room s))"
  unfolding typing_inv_def
proof (intro allI impI)
  fix r t u
  let ?s' = "final (leaveRoom ws room s)"
  assume t: "typingUsers ?s' r = Some t" and u: "u \<in> set t"
  show "\<exists>c. c \<in> set (members ?s' r) \<and> username (conns ?s' c) = Some u"
  proof (cases "r = room")
    case False
    with t have "typingUsers s r = Some t"
      by (simp add: typingUsers_leaveRoom split: option.splits if_splits)
    with assms u obtain c where "c \<in> set (members s r)" "username (conns s c) = Some u"
      unfolding typing_inv_def by blast
    with False show ?thesis by (auto simp: members_leaveRoom_other)
  next
    case True
    with t obtain t0 where t0: "typingUsers s room = Some t0"
      and t': "t = delete_user (username (conns s ws)) t0"
      by (auto simp: typingUsers_leaveRoom split: option.splits if_splits)
    from u t' have "u \<in> set t0" and ne: "username (conns s ws) \<noteq> Some u"
      using set_delete_user by blast+
    with assms t0 obtain c where c: "c \<in> set (members s room)"
      and name: "username (conns s c) = Some u"
      unfolding typing_inv_def by blast
    from name ne have "c \<noteq> ws" by auto
    with c have "c \<in> set (members ?s' room)" by (simp add: members_leaveRoom)
    with name True show ?thesis by auto
  qed
qed

lemma typing_inv_handle_typing:
  assumes "room_inv s" and "typing_inv s"
  shows "typing_inv (final (handle_typing ws data s))"
proof (cases "requireFields ws data [''room''] s")
  case (Pair b s1)
  note rf = requireFields_fields [OF Pair]
  have inv1: "typing_inv s1" using assms(2) rf by (simp add: typing_inv_cong [of s1 s])
  have rinv1: "room_inv s1" using assms(1) room_inv_requireFields [OF Pair] by simp
  let ?room = "str (get data ''room'')"
  have step: "typing_inv (broadcastToRoom ?room p None (s1\<lparr>typingUsers := (typingUsers s1)(?room \<mapsto> t')\<rparr>))"
    if sub: "set t' \<subseteq> insert user (case typingUsers s1 ?room of None \<Rightarrow> {} | Some t0 \<Rightarrow> set t0)"
      and usr: "username (conns s1 ws) = Some user"
      and mem: "?room \<in> set (ws_rooms (conns s1 ws))"
    for t' user p
    unfolding typing_inv_def
  proof (intro allI impI)
    fix r t u
    let ?s2 = "broadcastToRoom ?room p None (s1\<lparr>typingUsers := (typingUsers s1)(?room \<mapsto> t')\<rparr>)"
    assume t: "typingUsers ?s2 r = Some t" and u: "u \<in> set t"
    have m: "members ?s2 r = members s1 r" by simp
    have n: "username (conns ?s2 c) = username (conns s1 c)" for c by simp
    show "\<exists>c. c \<in> set (members ?s2 r) \<and> username (conns ?s2 c) = Some u"
    proof (cases "r = ?room")
      case False
      with t have "typingUsers s1 r = Some t" by simp
      with inv1 u show ?thesis unfolding typing_inv_def m n by blast
    next
      case True
      with t have "t = t'" by simp
      with u sub have "u = user \<or> (\<exists>t0. typingUsers s1 ?room = Some t0 \<and> u \<in> set t0)"
        by (auto split: option.splits)
      then show ?thesis
      proof
        assume "u = user"
        moreover from rinv1 mem have "ws \<in> set (members s1 ?room)"
          by (simp add: room_inv_members(2))
        ultimately show ?thesis using usr True unfolding m n by blast
      next
        assume "\<exists>t0. typingUsers s1 ?room = Some t0 \<and> u \<in> set t0"
        with inv1 True show ?thesis unfolding typing_inv_def m n by blast
      qed
    qed
  qed
  from Pair inv1 show ?thesis
    by (cases b)
       (auto simp: handle_typing_def Let_def lookup_def intro!: step
          split: option.splits property.splits if_splits)
qed



lemma username_handle_join:
  "username (conns (handle_join ws data s) ws) =
     (if filter (invalid_field data) [''room'', ''sender''] = []
      then Some (str (get data ''sender'')) else username (conns s ws))"
  by (simp add: handle_join_def requireFields_def Let_def del: filter.simps)

lemma typing_inv_handle_join:
  assumes "typing_inv s"
    and "username (conns s ws) = None \<or>
         username (conns (handle_join ws data s) ws) = username (conns s ws)"
  shows "typing_inv (handle_join ws data s)"
proof (cases "filter (invalid_field data) [''room'', ''sender''] = []")
  case True
  with assms(2) have "username (conns s ws) = None \<or>
      username (conns s ws) = Some (str (get data ''sender''))"
    by (auto simp: username_handle_join simp del: filter.simps)
  with assms(1) have "typing_inv
      (s\<lparr>conns := (conns s)(ws := (conns s ws)\<lparr>username := Some (str (get data ''sender''))\<rparr>)\<rparr>)"
    by (rule typing_inv_set_username)
  then show ?thesis using True
    by (simp add: handle_join_def requireFields_valid typing_inv_joinRoom del: filter.simps)
next
  case False
  then have "handle_join ws data s =
      send ws (ErrorEv (''Missing or invalid fields: '' @
        join '', '' (filter (invalid_field data) [''room'', ''sender'']))) s"
    by (simp add: handle_join_def requireFields_invalid del: filter.simps)
  with assms(1) show ?thesis by (simp add: typing_inv_cong [of "send ws p s" s for p])
qed

lemma typing_inv_handle_leave:
  "typing_inv s \<Longrightarrow> typing_inv (final (handle_leave ws data s))"
proof (cases "requireFields ws data [''room''] s")
  case (Pair b s1)
  assume "typing_inv s"
  with requireFields_fields [OF Pair] have "typing_inv s1"
    by (simp add: typing_inv_cong [of s1 s])
  with Pair show ?thesis
    by (cases b) (simp_all add: handle_leave_def typing_inv_leaveRoom)
qed

lemma unchanged_handle_message:
  "typingUsers (handle_message now ws data s) = typingUsers s"
  "rooms (handle_message now ws data s) = rooms s"
  "conns (handle_message now ws data s) = conns s"
  by (cases "requireFields ws data [''room'', ''content''] s";
      auto simp: handle_message_def dest: requireFields_fields split: bool.splits)+

lemma unchanged_handle_reaction:
  "typingUsers (handle_reaction now ws data s) = typingUsers s"
  "rooms (handle_reaction now ws data s) = rooms s"
  "conns (handle_reaction now ws data s) = conns s"
  by (cases "requireFields ws data [''room'', ''target'', ''emoji''] s";
      auto simp: handle_reaction_def dest: requireFields_fields split: bool.splits)+

lemma unchanged_handle_presence_request:
  "typingUsers (handle_presence_request ws data s) = typingUsers s"
  "rooms (handle_presence_request ws data s) = rooms s"
  "conns (handle_presence_request ws data s) = conns s"
  by (cases "requireFields ws data [''room''] s";
      auto simp: handle_presence_request_def dest: requireFields_fields split: bool.splits)+

lemma typing_inv_call_handler:
  assumes "room_inv s" and "typing_inv s"
    and "username (conns s ws) = None \<or>
         username (conns (final (call_handler h now ws data s)) ws) = username (conns s ws)"
  shows "typing_inv (final (call_handler h now ws data s))"
proof (cases h)
  case Join
  with assms(2,3) show ?thesis by (simp add: typing_inv_handle_join)
next
  case Leave
  with assms(2) show ?thesis by (simp add: typing_inv_handle_leave)
next
  case Message
  with assms(2) show ?thesis
    by (simp add: typing_inv_cong [of "handle_message now ws data s" s] unchanged_handle_message)
next
  case Reaction
  with assms(2) show ?thesis
    by (simp add: typing_inv_cong [of "handle_reaction now ws data s" s] unchanged_handle_reaction)
next
  case PresenceRequest
  with assms(2) show ?thesis
    by (simp add: typing_inv_cong [of "handle_presence_request ws data s" s]
        unchanged_handle_presence_request)
next
  case Typing
  with assms(1,2) show ?thesis by (simp add: typing_inv_handle_typing)
qed

lemma typing_inv_on_message:
  assumes "room_inv s" and "typing_inv s"
    and "username (conns s ws) = None \<or>
         username (conns (final (on_message nts now ws msg s)) ws) = username (conns s ws)"
  shows "typing_inv (final (on_message nts now ws msg s))"
proof (cases "truthy (parseJSON msg)")
  case False
  with assms(2) show ?thesis
    by (simp add: on_message_def Let_def typing_inv_cong [of "send ws p s" s for p])
next
  case True
  show ?thesis
  proof (cases "to_string_opt nts (get (parseJSON msg) ''type'')")
    case None
    with True assms(2) show ?thesis by (simp add: on_message_def Let_def)
  next
    case (Some key)
    show ?thesis
    proof (cases "lookup messageHandlers key")
      case (Own h)
      with True Some assms show ?thesis
        by (simp add: on_message_def Let_def typing_inv_call_handler)
    next
      case (Inherited k)
      with True Some assms(2) show ?thesis
        by (simp add: on_message_def Let_def call_inherited_def)
    next
      case Undefined
      with True Some assms(2) show ?thesis
        by (simp add: on_message_def Let_def typing_inv_cong [of "send ws p s" s for p])
    qed
  qed
qed

lemma typing_inv_leave_all:
  "typing_inv s \<Longrightarrow> typing_inv (final (leave_all ws rs s))"
proof (induction rs arbitrary: s)
  case Nil
  then show ?case by simp
next
  case (Cons r rs)
  from Cons.prems have inv: "typing_inv (final (leaveRoom ws r s))"
    by (rule typing_inv_leaveRoom)
  show ?case
  proof (cases "leaveRoom ws r s")
    case (Returns s1)
    with inv have "typing_inv s1" by simp
    then have "typing_inv (final (leave_all ws rs s1))" by (rule Cons.IH)
    with Returns show ?thesis by simp
  next
    case (Throws e s1)
    with inv show ?thesis by simp
  qed
qed

lemma typing_inv_step:
  assumes "room_inv s" and "typing_inv s" and "keeps_identity s e (final (step nts e s))"
  shows "typing_inv (final (step nts e s))"
proof (cases e)
  case (Frame ws msg now)
  with assms show ?thesis by (simp add: typing_inv_on_message)
next
  case (Close ws)
  with assms(2) show ?thesis by (simp add: on_close_def typing_inv_leave_all)
next
  case (Transport ws rs)
  with assms(2) show ?thesis
    by (simp add: typing_inv_cong
        [of "s\<lparr>conns := (conns s)(ws := (conns s ws)\<lparr>readyState := rs\<rparr>)\<rparr>" s])
qed

lemma typing_inv_run:
  "room_inv s \<Longrightarrow> typing_inv s \<Longrightarrow> identities_kept nts es s \<Longrightarrow>
   typing_inv (final (run nts es s))"
proof (induction es arbitrary: s)
  case Nil
  then show ?case by simp
next
  case (Cons e es)
  from Cons.prems have keep: "keeps_identity s e (final (step nts e s))" by simp
  with Cons.prems have tinv: "typing_inv (final (step nts e s))"
    by (simp add: typing_inv_step)
  from Cons.prems have rinv: "room_inv (final (step nts e s))"
    by (simp add: room_inv_step)
  show ?case
  proof (cases "step nts e s")
    case (Returns s1)
    with tinv rinv Cons.prems have "room_inv s1" "typing_inv s1" "identities_kept nts es s1"
      by simp_all
    then have "typing_inv (final (run nts es s1))" by (rule Cons.IH)
    with Returns show ?thesis by simp
  next
    case (Throws err s1)
    with tinv show ?thesis by simp
  qed
qed

text \<open>
  In a run in which no connection that has a display identity is given another one,
  every identity in a room's typing set is the display identity of a current member of
  that room.
\<close>

theorem typing_subset_of_members:
  assumes "identities_kept nts evs init_state"
    and "typingUsers (final (run nts evs init_state)) room = Some t"
    and "u \<in> set t"
  shows "\<exists>c. c \<in> set (members (final (run nts evs init_state)) room) \<and>
             username (conns (final (run nts evs init_state)) c) = Some u"
proof -
  have "typing_inv (final (run nts evs init_state))"
    using room_inv_init typing_inv_init assms(1) by (rule typing_inv_run)
  with assms(2,3) show ?thesis unfolding typing_inv_def by blast
qed

text \<open>After alice joined \<^verbatim>\<open>general\<close> and started typing, she is the member behind the entry.\<close>

theorem typing_subset_of_members_witness:
  "identities_kept any_text
     [Frame 0 (Some (join_msg ''general'' ''alice'')) 0,
      Frame 0 (Some (typing_msg ''general'' True)) 0] init_state \<and>
   typingUsers (final (run any_text
     [Frame 0 (Some (join_msg ''general'' ''alice'')) 0,
      Frame 0 (Some (typing_msg ''general'' True)) 0] init_state)) ''general'' = Some [''alice''] \<and>
   ''alice'' \<in> set [''alice''] \<and>
   0 \<in> set (members (final (run any_text
     [Frame 0 (Some (join_msg ''general'' ''alice'')) 0,
      Frame 0 (Some (typing_msg ''general'' True)) 0] init_state)) ''general'') \<and>
   username (conns (final (run any_text
     [Frame 0 (Some (join_msg ''general'' ''alice'')) 0,
      Frame 0 (Some (typing_msg ''general'' True)) 0] init_state)) 0) = Some ''alice''"
  using typing_subset_of_members [of any_text
     "[Frame 0 (Some (join_msg ''general'' ''alice'')) 0,
       Frame 0 (Some (typing_msg ''general'' True)) 0]" "''general''" "[''alice'']" "''alice''"]
  by (simp add: on_message_join on_message_typing join_alice typing_alice)
     (simp add: scenario_defs members_def init_state_def init_conn_def)

end
